theory Spec2Isabelle
  imports Main
begin

section \<open>The Johnny simulator: project data (class JohnnyProject)\<close>

text \<open>
  The repository ships the simulator in three build channels. The development embeds the
  class-based sources: \<^verbatim>\<open>preview/static/script/classes/johnny-project.js\<close>,
  \<^verbatim>\<open>preview/static/script/microstep.js\<close>, \<^verbatim>\<open>beta/static/script/ram-table.js\<close>,
  \<^verbatim>\<open>beta/static/script/record.js\<close>, \<^verbatim>\<open>beta/static/script/utils/writing.js\<close>, the
  formatter helpers \<^verbatim>\<open>getDataHigh\<close>/\<^verbatim>\<open>getDataLow\<close> and \<^verbatim>\<open>singleMacroStep\<close>. Older copies
  of a function, where a property is settled on them, carry a name ending in \<^verbatim>\<open>_legacy\<close>.

  JavaScript numbers are modelled as \<^typ>\<open>int\<close>: every number the machine computes is an
  integer, and the checks of the source are written out on integers.
\<close>

definition RAM_SIZE :: int where
  "RAM_SIZE = 1000"

definition MICROCODE_SIZE :: int where
  "MICROCODE_SIZE = 200"

definition MAX_RAM_VALUE :: int where
  "MAX_RAM_VALUE = (MICROCODE_SIZE * 100) - 1"

text \<open>Values of a parsed JSON text, as \<^verbatim>\<open>JSON.parse\<close> returns them.\<close>

datatype jval =
    JNull
  | JBool bool
  | JNum int
  | JStr string
  | JArr "jval list"
  | JObj "(string \<times> jval) list"

text \<open>The errors thrown by the source (\<^verbatim>\<open>throw new Error(...)\<close>, and the \<^verbatim>\<open>TypeError\<close> of a
  property read on \<^verbatim>\<open>null\<close>).\<close>

datatype exn =
    RamAddressOutOfBounds int
  | RamValueOutOfBounds int
  | MicrocodeAddressOutOfBounds int
  | MicrocodeValueOutOfBounds int
  | OpcodeOutOfBounds int
  | InvalidInstructionName string
  | InvalidRamValues
  | InvalidRamData
  | InvalidMicrocodeValues
  | InvalidMicrocodeData
  | InvalidInstructionNames
  | PropertyOfNull
  | NotAFiniteNumber

text \<open>A method that mutates its object either completes or throws; in both cases the object
  is left in some state, which the result carries.\<close>

datatype 'a res = Ok 'a | Err exn 'a

fun state_of :: "'a res \<Rightarrow> 'a" where
  "state_of (Ok s) = s"
| "state_of (Err e s) = s"

fun and_then :: "'a res \<Rightarrow> ('a \<Rightarrow> 'a res) \<Rightarrow> 'a res" where
  "and_then (Ok s) f = f s"
| "and_then (Err e s) f = Err e s"

record johnny_project =
  ram :: "int list"
  microCode :: "int list"
  instructionNames :: "(string \<times> jval) list"

text \<open>The class keeps \<^verbatim>\<open>#ram\<close> and \<^verbatim>\<open>#microCode\<close> private: they are created with the fixed
  sizes and only replaced by arrays of the same sizes.\<close>

definition sized :: "johnny_project \<Rightarrow> bool" where
  "sized p = (int (length (ram p)) = RAM_SIZE \<and> int (length (microCode p)) = MICROCODE_SIZE)"

definition ramValueOk :: "int \<Rightarrow> bool" where
  "ramValueOk v = (0 \<le> v \<and> v \<le> MAX_RAM_VALUE)"

definition initRam :: "johnny_project \<Rightarrow> johnny_project" where
  "initRam p = p\<lparr>ram := replicate (nat RAM_SIZE) 0\<rparr>"

definition defaultMicroCode :: "int list" where
  "defaultMicroCode =
    [8, 2, 3, 5, 0, 0, 0, 0, 0, 0, 4, 2, 18, 9, 7, 0, 0, 0, 0, 0,
     4, 2, 13, 9, 7, 0, 0, 0, 0, 0, 4, 2, 14, 9, 7, 0, 0, 0, 0, 0,
     4, 15, 1, 9, 7, 0, 0, 0, 0, 0, 11, 7, 0, 0, 0, 0, 0, 0, 0, 0,
     4, 2, 18, 10, 9, 7, 0, 0, 0, 0, 4, 2, 18, 16, 15, 1, 9, 7, 0, 0,
     4, 2, 18, 17, 15, 1, 9, 7, 0, 0, 4, 12, 15, 1, 9, 7, 0, 0, 0, 0,
     19, 0, 0, 0, 0, 0, 0, 0, 0, 0]"

text \<open>The padding loop \<^verbatim>\<open>while (a.length < SIZE) a.push(0)\<close>; \<open>z\<close> is the pushed zero.\<close>

function padZeros :: "'a \<Rightarrow> int \<Rightarrow> 'a list \<Rightarrow> 'a list" where
  "padZeros z n xs = (if int (length xs) < n then padZeros z n (xs @ [z]) else xs)"
  by pat_completeness auto
termination
  by (relation "measure (\<lambda>(z, n, xs). nat (n - int (length xs)))") auto

declare padZeros.simps [simp del]

definition defaultInstructionNames :: "(string \<times> jval) list" where
  "defaultInstructionNames =
    [(''0'', JStr ''FETCH''), (''1'', JStr ''TAKE''), (''2'', JStr ''ADD''),
     (''3'', JStr ''SUB''), (''4'', JStr ''SAVE''), (''5'', JStr ''JMP''),
     (''6'', JStr ''TST''), (''7'', JStr ''INC''), (''8'', JStr ''DEC''),
     (''9'', JStr ''NULL''), (''10'', JStr ''HLT'')]"

definition initInstructionNames :: "johnny_project \<Rightarrow> johnny_project" where
  "initInstructionNames p = p\<lparr>instructionNames := defaultInstructionNames\<rparr>"

definition initMicroCode :: "johnny_project \<Rightarrow> johnny_project" where
  "initMicroCode p =
     initInstructionNames (p\<lparr>microCode := padZeros 0 MICROCODE_SIZE defaultMicroCode\<rparr>)"

text \<open>The project that the constructor builds (\<^verbatim>\<open>#init\<close>) when the browser holds no stored
  project to load.\<close>

definition init :: "johnny_project" where
  "init = initMicroCode (initRam \<lparr>ram = [], microCode = [], instructionNames = []\<rparr>)"

definition getRam :: "int \<Rightarrow> johnny_project \<Rightarrow> exn + int" where
  "getRam address p =
     (if address < 0 \<or> address \<ge> RAM_SIZE then Inl (RamAddressOutOfBounds address)
      else Inr (ram p ! nat address))"

definition setRam :: "int \<Rightarrow> int \<Rightarrow> johnny_project \<Rightarrow> johnny_project res" where
  "setRam address v p =
     (if address < 0 \<or> address \<ge> RAM_SIZE then Err (RamAddressOutOfBounds address) p
      else if v < 0 \<or> v > MAX_RAM_VALUE then Err (RamValueOutOfBounds v) p
      else Ok (p\<lparr>ram := (ram p)[nat address := v]\<rparr>))"

definition resetRam :: "johnny_project \<Rightarrow> johnny_project" where
  "resetRam p = initRam p"

definition getMicroCode :: "int \<Rightarrow> johnny_project \<Rightarrow> exn + int" where
  "getMicroCode address p =
     (if address < 0 \<or> address \<ge> MICROCODE_SIZE then Inl (MicrocodeAddressOutOfBounds address)
      else Inr (microCode p ! nat address))"

definition setMicroCode :: "int \<Rightarrow> int \<Rightarrow> johnny_project \<Rightarrow> johnny_project res" where
  "setMicroCode address v p =
     (if address < 0 \<or> address \<ge> MICROCODE_SIZE then Err (MicrocodeAddressOutOfBounds address) p
      else if v < 0 \<or> v > 19 \<or> v = 6 then Err (MicrocodeValueOutOfBounds v) p
      else Ok (p\<lparr>microCode := (microCode p)[nat address := v]\<rparr>))"

definition resetMicroCode :: "johnny_project \<Rightarrow> johnny_project" where
  "resetMicroCode p = initMicroCode p"

text \<open>\<^verbatim>\<open>getLastUsedRamAddress\<close>: the loop runs \<^verbatim>\<open>i\<close> from \<^verbatim>\<open>RAM_SIZE - 1\<close> down to \<^verbatim>\<open>0\<close>;
  \<open>lastUsedBelow r n\<close> is the loop entered with \<^verbatim>\<open>i = n - 1\<close>.\<close>

fun lastUsedBelow :: "int list \<Rightarrow> nat \<Rightarrow> int" where
  "lastUsedBelow r 0 = -1"
| "lastUsedBelow r (Suc i) = (if r ! i \<noteq> 0 then int i else lastUsedBelow r i)"

definition getLastUsedRamAddress :: "johnny_project \<Rightarrow> int" where
  "getLastUsedRamAddress p = lastUsedBelow (ram p) (nat RAM_SIZE)"

text \<open>\<^verbatim>\<open>getInstructionName\<close> and \<^verbatim>\<open>setInstructionName\<close>. The name table is a JavaScript object;
  it is kept as the list of its own properties, keyed by the decimal text of the opcode.\<close>

definition digit :: "nat \<Rightarrow> char" where
  "digit n = ''0123456789'' ! n"

function dec :: "nat \<Rightarrow> string" where
  "dec n = (if n < 10 then [digit n] else dec (n div 10) @ [digit (n mod 10)])"
  by pat_completeness auto
termination
  by (relation "measure (\<lambda>n. n)") auto

declare dec.simps [simp del]

definition propertyKey :: "int \<Rightarrow> string" where
  "propertyKey i = (if i < 0 then CHR ''-'' # dec (nat (- i)) else dec (nat i))"

fun setProperty :: "(string \<times> jval) list \<Rightarrow> string \<Rightarrow> jval \<Rightarrow> (string \<times> jval) list" where
  "setProperty [] k v = [(k, v)]"
| "setProperty ((k', v') # kvs) k v =
     (if k' = k then (k, v) # kvs else (k', v') # setProperty kvs k v)"

fun truthy :: "jval \<Rightarrow> bool" where
  "truthy JNull = False"
| "truthy (JBool b) = b"
| "truthy (JNum n) = (n \<noteq> 0)"
| "truthy (JStr s) = (s \<noteq> [])"
| "truthy (JArr xs) = True"
| "truthy (JObj kvs) = True"

definition isSpace :: "char \<Rightarrow> bool" where
  "isSpace c = (c = CHR '' '' \<or> c = CHR 0x09 \<or> c = CHR 0x0A \<or> c = CHR 0x0B \<or>
                c = CHR 0x0C \<or> c = CHR 0x0D)"

definition trim :: "string \<Rightarrow> string" where
  "trim s = rev (dropWhile isSpace (rev (dropWhile isSpace s)))"

definition getInstructionName :: "int \<Rightarrow> johnny_project \<Rightarrow> jval option" where
  "getInstructionName opCode p =
     (case map_of (instructionNames p) (propertyKey opCode) of
        None \<Rightarrow> None
      | Some v \<Rightarrow> (if truthy v then Some v else None))"

definition setInstructionName :: "int \<Rightarrow> string \<Rightarrow> johnny_project \<Rightarrow> johnny_project res" where
  "setInstructionName opCode name p =
     (if opCode < 0 \<or> opCode \<ge> MICROCODE_SIZE div 10 then Err (OpcodeOutOfBounds opCode) p
      else if trim name = [] \<or> length name > 5 then Err (InvalidInstructionName name) p
      else Ok (p\<lparr>instructionNames :=
                   setProperty (instructionNames p) (propertyKey opCode) (JStr name)\<rparr>))"

section \<open>Snapshot import (\<^verbatim>\<open>#fromJSON\<close>, \<^verbatim>\<open>import\<close>)\<close>

text \<open>A property read \<^verbatim>\<open>json.key\<close> for one of the three field names of a snapshot: it throws
  on \<^verbatim>\<open>null\<close>, finds the property on an object and is \<^verbatim>\<open>undefined\<close> (\<open>None\<close>) on every other
  value. \<open>JObj\<close> lists the properties of a parsed object, each key once.\<close>

fun member :: "jval \<Rightarrow> string \<Rightarrow> exn + jval option" where
  "member JNull k = Inl PropertyOfNull"
| "member (JObj kvs) k = Inr (map_of kvs k)"
| "member v k = Inr None"

fun ramEntryOk :: "jval \<Rightarrow> bool" where
  "ramEntryOk (JNum val) = (val \<ge> 0 \<and> val \<le> MAX_RAM_VALUE)"
| "ramEntryOk v = False"

fun microCodeEntryOk :: "jval \<Rightarrow> bool" where
  "microCodeEntryOk (JNum val) = (val \<ge> 0 \<and> val \<le> 19 \<and> val \<noteq> 6)"
| "microCodeEntryOk v = False"

fun numberOf :: "jval \<Rightarrow> int" where
  "numberOf (JNum n) = n"
| "numberOf v = 0"

text \<open>The three blocks of \<^verbatim>\<open>#fromJSON\<close>, in the order of the source: each validates one
  field and assigns it before the next field is looked at.\<close>

definition loadRam :: "jval \<Rightarrow> johnny_project \<Rightarrow> johnny_project res" where
  "loadRam json p =
     (case member json ''ram'' of
        Inl e \<Rightarrow> Err e p
      | Inr (Some (JArr xs)) \<Rightarrow>
          (if int (length (padZeros (JNum 0) RAM_SIZE xs)) = RAM_SIZE \<and>
              list_all ramEntryOk (padZeros (JNum 0) RAM_SIZE xs)
           then Ok (p\<lparr>ram := map numberOf (padZeros (JNum 0) RAM_SIZE xs)\<rparr>)
           else Err InvalidRamValues p)
      | Inr _ \<Rightarrow> Err InvalidRamData p)"

definition loadMicroCode :: "jval \<Rightarrow> johnny_project \<Rightarrow> johnny_project res" where
  "loadMicroCode json p =
     (case member json ''microCode'' of
        Inl e \<Rightarrow> Err e p
      | Inr (Some (JArr xs)) \<Rightarrow>
          (if int (length (padZeros (JNum 0) MICROCODE_SIZE xs)) = MICROCODE_SIZE \<and>
              list_all microCodeEntryOk (padZeros (JNum 0) MICROCODE_SIZE xs)
           then Ok (p\<lparr>microCode := map numberOf (padZeros (JNum 0) MICROCODE_SIZE xs)\<rparr>)
           else Err InvalidMicrocodeValues p)
      | Inr _ \<Rightarrow> Err InvalidMicrocodeData p)"

text \<open>An array is an object too (\<^verbatim>\<open>typeof [] === "object"\<close>); its properties are its indices.\<close>

definition loadInstructionNames :: "jval \<Rightarrow> johnny_project \<Rightarrow> johnny_project res" where
  "loadInstructionNames json p =
     (case member json ''instructionNames'' of
        Inl e \<Rightarrow> Err e p
      | Inr (Some (JObj kvs)) \<Rightarrow> Ok (p\<lparr>instructionNames := kvs\<rparr>)
      | Inr (Some (JArr xs)) \<Rightarrow>
          Ok (p\<lparr>instructionNames := zip (map dec [0 ..< length xs]) xs\<rparr>)
      | Inr _ \<Rightarrow> Err InvalidInstructionNames p)"

definition fromJSON :: "jval \<Rightarrow> johnny_project \<Rightarrow> johnny_project res" where
  "fromJSON json p =
     and_then (loadRam json p) (\<lambda>p1.
     and_then (loadMicroCode json p1) (\<lambda>p2.
     loadInstructionNames json p2))"

text \<open>\<^verbatim>\<open>import(jsonString)\<close>: \<open>None\<close> stands for a text that \<^verbatim>\<open>JSON.parse\<close> rejects. The
  \<^verbatim>\<open>catch\<close> block only logs, so the project is left as the \<^verbatim>\<open>try\<close> block left it.\<close>

definition importProject :: "jval option \<Rightarrow> johnny_project \<Rightarrow> johnny_project" where
  "importProject parsed p =
     (case parsed of None \<Rightarrow> p | Some projectData \<Rightarrow> state_of (fromJSON projectData p))"

section \<open>The machine: registers and flags\<close>

text \<open>What the user is shown through \<^verbatim>\<open>alert\<close>.\<close>

datatype alert =
    FetchError int
  | MicrocodeIsZero int
  | UnknownMicroInstruction int int
  | UnknownMicroInstructionId "int option" int
  | ProgramStopped
  | RamIsFull
  | RecordingInputError

text \<open>The global variables of the simulator; \<open>fixRamAfterShift\<close> is the setting of that name.\<close>

record machine =
  project :: johnny_project
  addressBus :: int
  dataBus :: int
  accumulator :: int
  programCounter :: int
  instructionRegister :: int
  microCodeCounter :: int
  selectedRamAddress :: int
  lastAccessedRamAddress :: "int option"
  isHlt :: bool
  isMacroRunning :: bool
  isRecording :: bool
  recordMicroCodeAddress :: "int option"
  fixRamAfterShift :: bool
  alerts :: "alert list"

definition initialMachine :: machine where
  "initialMachine =
     \<lparr>project = init, addressBus = 0, dataBus = 0, accumulator = 0, programCounter = 0,
      instructionRegister = 0, microCodeCounter = 0, selectedRamAddress = 0,
      lastAccessedRamAddress = None, isHlt = False, isMacroRunning = False,
      isRecording = False, recordMicroCodeAddress = None, fixRamAfterShift = True,
      alerts = []\<rparr>"

fun in_project :: "johnny_project res \<Rightarrow> machine \<Rightarrow> machine res" where
  "in_project (Ok p) s = Ok (s\<lparr>project := p\<rparr>)"
| "in_project (Err e p) s = Err e (s\<lparr>project := p\<rparr>)"

section \<open>Register writes (\<^verbatim>\<open>utils/writing.js\<close>)\<close>

definition clamp :: "int \<Rightarrow> int \<Rightarrow> int \<Rightarrow> int" where
  "clamp v lo hi = min (max v lo) hi"

text \<open>\<^verbatim>\<open>normalizeInt\<close> on a number: \<^verbatim>\<open>toNumberStrict\<close> returns a finite number as it is and
  \<^verbatim>\<open>Math.trunc\<close> leaves an integer alone.\<close>

definition normalizeInt :: "int \<Rightarrow> int \<Rightarrow> int \<Rightarrow> int" where
  "normalizeInt v lo hi = clamp v lo hi"

definition writeToRam :: "int \<Rightarrow> int \<Rightarrow> machine \<Rightarrow> machine res" where
  "writeToRam address v s =
     in_project (setRam (normalizeInt address 0 (RAM_SIZE - 1))
                        (normalizeInt v 0 MAX_RAM_VALUE) (project s)) s"

definition writeToAddressBus :: "int \<Rightarrow> machine \<Rightarrow> machine" where
  "writeToAddressBus v s = s\<lparr>addressBus := normalizeInt v 0 (RAM_SIZE - 1)\<rparr>"

definition writeToDataBus :: "int \<Rightarrow> machine \<Rightarrow> machine" where
  "writeToDataBus v s = s\<lparr>dataBus := normalizeInt v 0 MAX_RAM_VALUE\<rparr>"

definition writeToAccumulator :: "int \<Rightarrow> machine \<Rightarrow> machine" where
  "writeToAccumulator v s = s\<lparr>accumulator := normalizeInt v 0 MAX_RAM_VALUE\<rparr>"

definition writeToProgramCounter :: "int \<Rightarrow> machine \<Rightarrow> machine" where
  "writeToProgramCounter v s = s\<lparr>programCounter := normalizeInt v 0 (RAM_SIZE - 1)\<rparr>"

definition writeToInstructionRegister :: "int \<Rightarrow> machine \<Rightarrow> machine" where
  "writeToInstructionRegister v s = s\<lparr>instructionRegister := normalizeInt v 0 MAX_RAM_VALUE\<rparr>"

definition writeToMicroCodeCounter :: "int \<Rightarrow> machine \<Rightarrow> machine" where
  "writeToMicroCodeCounter v s = s\<lparr>microCodeCounter := normalizeInt v 0 (MICROCODE_SIZE - 1)\<rparr>"

text \<open>\<^verbatim>\<open>getDataHigh\<close> is \<^verbatim>\<open>Math.trunc(data / RAM_SIZE)\<close> and \<^verbatim>\<open>getDataLow\<close> is
  \<^verbatim>\<open>data % RAM_SIZE\<close>: both round towards zero.\<close>

definition getDataHigh :: "int \<Rightarrow> int" where
  "getDataHigh data = (if 0 \<le> data then data div RAM_SIZE else - ((- data) div RAM_SIZE))"

definition getDataLow :: "int \<Rightarrow> int" where
  "getDataLow data = (if 0 \<le> data then data mod RAM_SIZE else - ((- data) mod RAM_SIZE))"

section \<open>Recording (\<^verbatim>\<open>record.js\<close>)\<close>

definition recordMicroStep :: "int \<Rightarrow> machine \<Rightarrow> machine res" where
  "recordMicroStep microStepId s =
     (case recordMicroCodeAddress s of
        None \<Rightarrow> Ok s
      | Some a \<Rightarrow>
          (if \<not> isRecording s then Ok s
           else and_then (in_project (setMicroCode a microStepId (project s)) s)
                  (\<lambda>s'. Ok (s'\<lparr>recordMicroCodeAddress := Some (a + 1)\<rparr>))))"

definition recordingFailed :: "machine \<Rightarrow> bool \<times> machine" where
  "recordingFailed s =
     (False, s\<lparr>isRecording := False, recordMicroCodeAddress := None,
               alerts := alerts s @ [RecordingInputError]\<rparr>)"

text \<open>\<^verbatim>\<open>startRecording\<close> reads two input fields. \<open>startAddress\<close> is the number that
  \<^verbatim>\<open>toNumberStrict\<close> makes of the first one (\<open>None\<close> when it throws, the text not being a
  finite number), \<open>nameInput\<close> the text of the second. Every error thrown inside is caught
  by the function itself, which then resets the recording state and alerts
  (\<open>recordingFailed\<close>). The result is the returned flag and the machine.\<close>

definition startRecording :: "int option \<Rightarrow> string \<Rightarrow> machine \<Rightarrow> bool \<times> machine" where
  "startRecording startAddress nameInput s =
     (case startAddress of
        None \<Rightarrow> recordingFailed s
      | Some a \<Rightarrow>
          (if a < 0 \<or> a > MICROCODE_SIZE - 10
             then recordingFailed (s\<lparr>recordMicroCodeAddress := Some a\<rparr>)
           else if a mod 10 \<noteq> 0
             then recordingFailed (s\<lparr>recordMicroCodeAddress := Some a\<rparr>)
           else if length (trim nameInput) = 0
             then recordingFailed (s\<lparr>recordMicroCodeAddress := Some a\<rparr>)
           else if length (trim nameInput) > 5
             then recordingFailed (s\<lparr>recordMicroCodeAddress := Some a\<rparr>)
           else (case setInstructionName (a div 10) (trim nameInput) (project s) of
                   Err e p \<Rightarrow> recordingFailed (s\<lparr>recordMicroCodeAddress := Some a, project := p\<rparr>)
                 | Ok p \<Rightarrow> (True, s\<lparr>recordMicroCodeAddress := Some a, project := p\<rparr>))))"

text \<open>\<^verbatim>\<open>toggleRecording\<close> (\<^verbatim>\<open>buttons.js\<close>) flips the flag and then starts or ends a recording.\<close>

definition toggleRecording :: "int option \<Rightarrow> string \<Rightarrow> machine \<Rightarrow> machine" where
  "toggleRecording startAddress nameInput s =
     (if \<not> isRecording s
      then snd (startRecording startAddress nameInput (s\<lparr>isRecording := True\<rparr>))
      else s\<lparr>isRecording := False, recordMicroCodeAddress := None\<rparr>)"

section \<open>Micro instructions (\<^verbatim>\<open>microstep.js\<close>)\<close>

definition stopMacroProgram :: "machine \<Rightarrow> machine" where
  "stopMacroProgram s = s\<lparr>isMacroRunning := False\<rparr>"

definition dbToRamStep :: "machine \<Rightarrow> machine res" where
  "dbToRamStep s =
     and_then (writeToRam (addressBus s) (dataBus s) s)
       (\<lambda>s'. Ok (s'\<lparr>lastAccessedRamAddress := Some (addressBus s')\<rparr>))"

definition ramToDbStep :: "machine \<Rightarrow> machine res" where
  "ramToDbStep s =
     (case getRam (addressBus s) (project s) of
        Inl e \<Rightarrow> Err e s
      | Inr v \<Rightarrow> Ok ((writeToDataBus v s)\<lparr>lastAccessedRamAddress := Some (addressBus s)\<rparr>))"

definition dbToInsStep :: "machine \<Rightarrow> machine res" where
  "dbToInsStep s = Ok (writeToInstructionRegister (dataBus s) s)"

definition insToAbStep :: "machine \<Rightarrow> machine res" where
  "insToAbStep s = Ok (writeToAddressBus (getDataLow (instructionRegister s)) s)"

definition insToMcStep :: "machine \<Rightarrow> machine res" where
  "insToMcStep s =
     Ok ((writeToMicroCodeCounter (getDataHigh (instructionRegister s) * 10) s)
           \<lparr>selectedRamAddress := programCounter s\<rparr>)"

definition nullMcStep :: "machine \<Rightarrow> machine res" where
  "nullMcStep s = Ok (writeToMicroCodeCounter 0 s)"

definition pcToAbStep :: "machine \<Rightarrow> machine res" where
  "pcToAbStep s = Ok (writeToAddressBus (programCounter s) s)"

definition incPcStep :: "machine \<Rightarrow> machine res" where
  "incPcStep s = Ok (writeToProgramCounter (programCounter s + 1) s)"

definition incPcIfAccZeroStep :: "machine \<Rightarrow> machine res" where
  "incPcIfAccZeroStep s = (if accumulator s = 0 then incPcStep s else Ok s)"

definition insToPcStep :: "machine \<Rightarrow> machine res" where
  "insToPcStep s = Ok (writeToProgramCounter (getDataLow (instructionRegister s)) s)"

definition nullAccStep :: "machine \<Rightarrow> machine res" where
  "nullAccStep s = Ok (writeToAccumulator 0 s)"

definition addAccStep :: "machine \<Rightarrow> machine res" where
  "addAccStep s = Ok (writeToAccumulator (accumulator s + dataBus s) s)"

definition subAccStep :: "machine \<Rightarrow> machine res" where
  "subAccStep s = Ok (writeToAccumulator (accumulator s - dataBus s) s)"

definition accToDbStep :: "machine \<Rightarrow> machine res" where
  "accToDbStep s = Ok (writeToDataBus (accumulator s) s)"

definition incAccStep :: "machine \<Rightarrow> machine res" where
  "incAccStep s = Ok (writeToAccumulator (accumulator s + 1) s)"

definition decAccStep :: "machine \<Rightarrow> machine res" where
  "decAccStep s = Ok (writeToAccumulator (accumulator s - 1) s)"

definition dbToAccStep :: "machine \<Rightarrow> machine res" where
  "dbToAccStep s = Ok (writeToAccumulator (dataBus s) s)"

text \<open>\<^verbatim>\<open>stopStep\<close> sets the flag and queues its alert with \<^verbatim>\<open>setTimeout\<close>; the model records
  the alert at once.\<close>

definition stopStep :: "machine \<Rightarrow> machine res" where
  "stopStep s = Ok (s\<lparr>isHlt := True, alerts := alerts s @ [ProgramStopped]\<rparr>)"

record micro_instruction =
  exec :: "machine \<Rightarrow> machine res"
  animation :: "string option"
  increment :: bool

definition MICRO_INSTRUCTIONS :: "int \<Rightarrow> micro_instruction option" where
  "MICRO_INSTRUCTIONS mid =
     (if mid = 1 then Some \<lparr>exec = dbToRamStep, animation = Some ''overlay-db-ram'', increment = True\<rparr>
      else if mid = 2 then Some \<lparr>exec = ramToDbStep, animation = Some ''overlay-ram-db'', increment = True\<rparr>
      else if mid = 3 then Some \<lparr>exec = dbToInsStep, animation = Some ''overlay-db-ins'', increment = True\<rparr>
      else if mid = 4 then Some \<lparr>exec = insToAbStep, animation = Some ''overlay-ins-ab'', increment = True\<rparr>
      else if mid = 5 then Some \<lparr>exec = insToMcStep, animation = Some ''overlay-ins-mc'', increment = False\<rparr>
      else if mid = 7 then Some \<lparr>exec = nullMcStep, animation = Some ''mc-null-button'', increment = False\<rparr>
      else if mid = 8 then Some \<lparr>exec = pcToAbStep, animation = Some ''overlay-pc-ab'', increment = True\<rparr>
      else if mid = 9 then Some \<lparr>exec = incPcStep, animation = Some ''pc-inc-button'', increment = True\<rparr>
      else if mid = 10 then Some \<lparr>exec = incPcIfAccZeroStep, animation = Some ''pc-inc-null-button'', increment = True\<rparr>
      else if mid = 11 then Some \<lparr>exec = insToPcStep, animation = Some ''overlay-ins-pc'', increment = True\<rparr>
      else if mid = 12 then Some \<lparr>exec = nullAccStep, animation = Some ''acc-null-button'', increment = True\<rparr>
      else if mid = 13 then Some \<lparr>exec = addAccStep, animation = Some ''overlay-db-acc'', increment = True\<rparr>
      else if mid = 14 then Some \<lparr>exec = subAccStep, animation = Some ''overlay-db-acc'', increment = True\<rparr>
      else if mid = 15 then Some \<lparr>exec = accToDbStep, animation = Some ''overlay-acc-db'', increment = True\<rparr>
      else if mid = 16 then Some \<lparr>exec = incAccStep, animation = Some ''acc-inc-button'', increment = True\<rparr>
      else if mid = 17 then Some \<lparr>exec = decAccStep, animation = Some ''acc-dec-button'', increment = True\<rparr>
      else if mid = 18 then Some \<lparr>exec = dbToAccStep, animation = Some ''overlay-db-acc'', increment = True\<rparr>
      else if mid = 19 then Some \<lparr>exec = stopStep, animation = Some ''mc-stop-button'', increment = False\<rparr>
      else if mid = 0 then Some \<lparr>exec = Ok, animation = None, increment = False\<rparr>
      else None)"

text \<open>\<^verbatim>\<open>executeMicroInstruction(mid, animate, isManual)\<close>. The animation and the table
  highlighting change nothing of the machine.\<close>

definition executeMicroInstruction :: "int \<Rightarrow> bool \<Rightarrow> bool \<Rightarrow> machine \<Rightarrow> machine res" where
  "executeMicroInstruction mid animate isManual s =
     (case MICRO_INSTRUCTIONS mid of
        None \<Rightarrow>
          Ok ((stopMacroProgram (s\<lparr>isHlt := True\<rparr>))
                \<lparr>alerts := alerts s @ [UnknownMicroInstruction mid (microCodeCounter s)]\<rparr>)
      | Some microStep \<Rightarrow>
          and_then (exec microStep s) (\<lambda>s1.
          and_then (if isRecording s1 \<and> isManual then recordMicroStep mid s1 else Ok s1) (\<lambda>s2.
          Ok (if increment microStep \<and> \<not> isManual
              then writeToMicroCodeCounter (microCodeCounter s2 + 1) s2 else s2))))"

definition microStep :: "bool \<Rightarrow> machine \<Rightarrow> machine res" where
  "microStep animate s =
     (if isHlt s then Ok s
      else (case getMicroCode (microCodeCounter s) (project s) of
              Inl e \<Rightarrow> Err e s
            | Inr mid \<Rightarrow>
                (if mid = 5 \<and> getDataHigh (instructionRegister s) = 0
                 then Ok (stopMacroProgram
                       (s\<lparr>isHlt := True, alerts := alerts s @ [FetchError (programCounter s)]\<rparr>))
                 else if mid = 0
                 then Ok (stopMacroProgram
                       (s\<lparr>isHlt := True, alerts := alerts s @ [MicrocodeIsZero (microCodeCounter s)]\<rparr>))
                 else executeMicroInstruction mid animate False s)))"

definition manualMicroStep :: "int \<Rightarrow> machine \<Rightarrow> machine res" where
  "manualMicroStep mid s = executeMicroInstruction mid True True s"

text \<open>\<^verbatim>\<open>singleMacroStep\<close>: \<^verbatim>\<open>do { microStep(false) } while (microCodeCounter != 0 && !isHlt)\<close>.
  The loop has no bound in the source; a run that never leaves it is the value \<open>None\<close>.\<close>

partial_function (option) singleMacroStep :: "machine \<Rightarrow> machine res option" where
  "singleMacroStep s =
     (case microStep False s of
        Err e s' \<Rightarrow> Some (Err e s')
      | Ok s' \<Rightarrow>
          (if microCodeCounter s' \<noteq> 0 \<and> \<not> isHlt s' then singleMacroStep s'
           else Some (Ok s')))"

section \<open>The RAM editor (\<^verbatim>\<open>ram-table.js\<close>)\<close>

text \<open>The shifting loop of \<^verbatim>\<open>insertRamRowAbove\<close>:
  \<^verbatim>\<open>for (i = lastUsedAddress + 1; i > selectedRamAddress; i--) setRam(i, getRam(i - 1))\<close>.\<close>

function shiftRowsDown :: "int \<Rightarrow> int \<Rightarrow> johnny_project \<Rightarrow> johnny_project res" where
  "shiftRowsDown i selected p =
     (if i > selected then
        (case getRam (i - 1) p of
           Inl e \<Rightarrow> Err e p
         | Inr v \<Rightarrow>
             (case setRam i v p of
                Err e p' \<Rightarrow> Err e p'
              | Ok p' \<Rightarrow> shiftRowsDown (i - 1) selected p'))
      else Ok p)"
  by pat_completeness auto
termination
  by (relation "measure (\<lambda>(i, selected, p). nat (i - selected))") auto

declare shiftRowsDown.simps [simp del]

text \<open>The shifting loop of \<^verbatim>\<open>deleteRamRow\<close>:
  \<^verbatim>\<open>for (i = selectedRamAddress; i < lastUsedAddress; i++) setRam(i, getRam(i + 1))\<close>.\<close>

function shiftRowsUp :: "int \<Rightarrow> int \<Rightarrow> johnny_project \<Rightarrow> johnny_project res" where
  "shiftRowsUp i lastUsedAddress p =
     (if i < lastUsedAddress then
        (case getRam (i + 1) p of
           Inl e \<Rightarrow> Err e p
         | Inr v \<Rightarrow>
             (case setRam i v p of
                Err e p' \<Rightarrow> Err e p'
              | Ok p' \<Rightarrow> shiftRowsUp (i + 1) lastUsedAddress p'))
      else Ok p)"
  by pat_completeness auto
termination
  by (relation "measure (\<lambda>(i, lastUsedAddress, p). nat (lastUsedAddress - i))") auto

declare shiftRowsUp.simps [simp del]

text \<open>The loop of \<^verbatim>\<open>fixOperandAfterRamShift\<close> over all addresses, entered at \<open>address\<close>.\<close>

function fixOperandsFrom :: "int \<Rightarrow> int \<Rightarrow> int \<Rightarrow> johnny_project \<Rightarrow> johnny_project res" where
  "fixOperandsFrom address startAddress delta p =
     (if address < RAM_SIZE then
        (case getRam address p of
           Inl e \<Rightarrow> Err e p
         | Inr data \<Rightarrow>
             (if getDataHigh data = 0 \<or> getDataHigh data = 10
              then fixOperandsFrom (address + 1) startAddress delta p
              else if getDataLow data \<ge> startAddress
              then (case setRam address
                           ((getDataHigh data * 1000) + (getDataLow data + delta)) p of
                      Err e p' \<Rightarrow> Err e p'
                    | Ok p' \<Rightarrow> fixOperandsFrom (address + 1) startAddress delta p')
              else fixOperandsFrom (address + 1) startAddress delta p))
      else Ok p)"
  by pat_completeness auto
termination
  by (relation "measure (\<lambda>(address, startAddress, delta, p). nat (RAM_SIZE - address))") auto

declare fixOperandsFrom.simps [simp del]

definition fixOperandAfterRamShift :: "int \<Rightarrow> int \<Rightarrow> machine \<Rightarrow> machine res" where
  "fixOperandAfterRamShift startAddress delta s =
     (if \<not> fixRamAfterShift s then Ok s
      else in_project (fixOperandsFrom 0 startAddress delta (project s)) s)"

definition insertRamRowAbove :: "machine \<Rightarrow> machine res" where
  "insertRamRowAbove s =
     (if getLastUsedRamAddress (project s) = -1 then Ok s
      else if getLastUsedRamAddress (project s) \<ge> RAM_SIZE - 1
        then Ok (s\<lparr>alerts := alerts s @ [RamIsFull]\<rparr>)
      else
        and_then (in_project (shiftRowsDown (getLastUsedRamAddress (project s) + 1)
                                (selectedRamAddress s) (project s)) s) (\<lambda>s1.
        and_then (in_project (setRam (selectedRamAddress s1) 0 (project s1)) s1) (\<lambda>s2.
        fixOperandAfterRamShift (selectedRamAddress s2) 1 s2)))"

definition deleteRamRow :: "machine \<Rightarrow> machine res" where
  "deleteRamRow s =
     (if getLastUsedRamAddress (project s) = -1 then Ok s
      else
        and_then (in_project (shiftRowsUp (selectedRamAddress s)
                                (getLastUsedRamAddress (project s)) (project s)) s) (\<lambda>s1.
        and_then (in_project (setRam (getLastUsedRamAddress (project s)) 0 (project s1)) s1) (\<lambda>s2.
        fixOperandAfterRamShift (selectedRamAddress s2) (- 1) s2)))"

section \<open>The older copy of the RAM editor (global array \<^verbatim>\<open>ram\<close>)\<close>

text \<open>This copy keeps the memory in a global array and writes it with \<^verbatim>\<open>ram[i] = ...\<close>, with
  no check of the value. In the model the array is the \<open>ram\<close> field of the project. Every
  index the loops write is a row of the table when the selected row is one
  (\<open>0 \<le> selectedRamAddress < ram.length\<close>), which the table guarantees; for any other
  selection the model gives \<open>None\<close>.\<close>

function shiftRowsDown_legacy :: "int \<Rightarrow> int \<Rightarrow> int list \<Rightarrow> int list" where
  "shiftRowsDown_legacy i selected r =
     (if i > selected then shiftRowsDown_legacy (i - 1) selected (r[nat i := r ! nat (i - 1)])
      else r)"
  by pat_completeness auto
termination
  by (relation "measure (\<lambda>(i, selected, r). nat (i - selected))") auto

declare shiftRowsDown_legacy.simps [simp del]

function fixOperandsFrom_legacy :: "nat \<Rightarrow> int \<Rightarrow> int \<Rightarrow> int list \<Rightarrow> int list" where
  "fixOperandsFrom_legacy address startAddress delta r =
     (if address < length r then
        (if getDataHigh (r ! address) = 0 \<or> getDataHigh (r ! address) = 10
         then fixOperandsFrom_legacy (address + 1) startAddress delta r
         else if getDataLow (r ! address) \<ge> startAddress
         then fixOperandsFrom_legacy (address + 1) startAddress delta
                (r[address := (getDataHigh (r ! address) * 1000)
                              + (getDataLow (r ! address) + delta)])
         else fixOperandsFrom_legacy (address + 1) startAddress delta r)
      else r)"
  by pat_completeness auto
termination
  by (relation "measure (\<lambda>(address, startAddress, delta, r). length r - address)") auto

declare fixOperandsFrom_legacy.simps [simp del]

definition fixOperandAfterRamShift_legacy :: "int \<Rightarrow> int \<Rightarrow> machine \<Rightarrow> machine" where
  "fixOperandAfterRamShift_legacy startAddress delta s =
     (if \<not> fixRamAfterShift s then s
      else s\<lparr>project := (project s)
               \<lparr>ram := fixOperandsFrom_legacy 0 startAddress delta (ram (project s))\<rparr>\<rparr>)"

definition getLastUsedRamAddress_legacy :: "int list \<Rightarrow> int" where
  "getLastUsedRamAddress_legacy r = lastUsedBelow r (length r)"

definition insertRamRowAbove_legacy :: "machine \<Rightarrow> machine option" where
  "insertRamRowAbove_legacy s =
     (if selectedRamAddress s < 0 \<or> selectedRamAddress s \<ge> int (length (ram (project s)))
        then None
      else if getLastUsedRamAddress_legacy (ram (project s)) = -1 then Some s
      else if getLastUsedRamAddress_legacy (ram (project s)) \<ge> int (length (ram (project s))) - 1
        then Some (s\<lparr>alerts := alerts s @ [RamIsFull]\<rparr>)
      else Some (fixOperandAfterRamShift_legacy (selectedRamAddress s) 1
             (s\<lparr>project := (project s)
                 \<lparr>ram := (shiftRowsDown_legacy
                            (getLastUsedRamAddress_legacy (ram (project s)) + 1)
                            (selectedRamAddress s) (ram (project s)))
                          [nat (selectedRamAddress s) := 0]\<rparr>\<rparr>)))"

section \<open>The older copy of the micro step (global arrays \<^verbatim>\<open>ram\<close> and \<^verbatim>\<open>microCode\<close>)\<close>

text \<open>This copy of \<^verbatim>\<open>microStep\<close> and \<^verbatim>\<open>executeMicroInstruction\<close> reads and writes the global
  arrays directly, has no recording, and \<^verbatim>\<open>microStep\<close> has no check of the id it reads. In the
  model the arrays are the fields of the project. A read outside an array is \<^verbatim>\<open>undefined\<close>:
  as a microcode id it is \<^verbatim>\<open>NaN\<close> (\<open>None\<close>), which the table does not know; as a memory
  word it makes \<^verbatim>\<open>toNumberStrict\<close> throw. Memory has \<open>RAM_SIZE\<close> entries, so the clamped
  address of \<^verbatim>\<open>writeToRam\<close> is one of them.\<close>

definition writeToRam_legacy :: "int \<Rightarrow> int \<Rightarrow> machine \<Rightarrow> machine" where
  "writeToRam_legacy address v s =
     s\<lparr>project := (project s)
          \<lparr>ram := (ram (project s))[nat (normalizeInt address 0 (RAM_SIZE - 1)) :=
                                      normalizeInt v 0 MAX_RAM_VALUE]\<rparr>\<rparr>"

definition dbToRamStep_legacy :: "machine \<Rightarrow> machine res" where
  "dbToRamStep_legacy s =
     Ok ((writeToRam_legacy (addressBus s) (dataBus s) s)
           \<lparr>lastAccessedRamAddress := Some (addressBus s)\<rparr>)"

definition ramToDbStep_legacy :: "machine \<Rightarrow> machine res" where
  "ramToDbStep_legacy s =
     (if 0 \<le> addressBus s \<and> addressBus s < int (length (ram (project s)))
      then Ok ((writeToDataBus (ram (project s) ! nat (addressBus s)) s)
                 \<lparr>lastAccessedRamAddress := Some (addressBus s)\<rparr>)
      else Err NotAFiniteNumber s)"

text \<open>The table of the older copy has the same entries; the steps 1 and 2 are the ones
  above, the others are the same functions.\<close>

definition MICRO_INSTRUCTIONS_legacy :: "int \<Rightarrow> micro_instruction option" where
  "MICRO_INSTRUCTIONS_legacy mid =
     (if mid = 1
        then Some \<lparr>exec = dbToRamStep_legacy, animation = Some ''overlay-db-ram'', increment = True\<rparr>
      else if mid = 2
        then Some \<lparr>exec = ramToDbStep_legacy, animation = Some ''overlay-ram-db'', increment = True\<rparr>
      else MICRO_INSTRUCTIONS mid)"

definition executeMicroInstruction_legacy ::
    "int option \<Rightarrow> bool \<Rightarrow> bool \<Rightarrow> machine \<Rightarrow> machine res" where
  "executeMicroInstruction_legacy mid animate isManual s =
     (case (case mid of None \<Rightarrow> None | Some i \<Rightarrow> MICRO_INSTRUCTIONS_legacy i) of
        None \<Rightarrow>
          Ok ((stopMacroProgram (s\<lparr>isHlt := True\<rparr>))
                \<lparr>alerts := alerts s @ [UnknownMicroInstructionId mid (microCodeCounter s)]\<rparr>)
      | Some microStep' \<Rightarrow>
          and_then (exec microStep' s) (\<lambda>s1.
          Ok (if increment microStep' \<and> \<not> isManual
              then writeToMicroCodeCounter (microCodeCounter s1 + 1) s1 else s1)))"

definition microStep_legacy :: "bool \<Rightarrow> machine \<Rightarrow> machine res" where
  "microStep_legacy animate s =
     (if isHlt s then Ok s
      else executeMicroInstruction_legacy
             (if 0 \<le> microCodeCounter s \<and>
                 microCodeCounter s < int (length (microCode (project s)))
              then Some (microCode (project s) ! nat (microCodeCounter s)) else None)
             animate False s)"

partial_function (option) singleMacroStep_legacy :: "machine \<Rightarrow> machine res option" where
  "singleMacroStep_legacy s =
     (case microStep_legacy False s of
        Err e s' \<Rightarrow> Some (Err e s')
      | Ok s' \<Rightarrow>
          (if microCodeCounter s' \<noteq> 0 \<and> \<not> isHlt s' then singleMacroStep_legacy s'
           else Some (Ok s')))"

section \<open>Notions used in the properties\<close>

text \<open>For the default microcode: a bound on the micro steps that remain until the macro
  step ends, by microcode address (the FETCH block is at 0 to 3, every other block ends
  within its ten slots).\<close>

definition stepsLeft :: "nat \<Rightarrow> nat" where
  "stepsLeft m = (if m < 4 then 13 - m else 9 - m mod 10)"

text \<open>What the entry at address \<open>m\<close> of a microcode does to that bound: it ends the macro
  step (0, 7, 19), it is the jump of the FETCH block, or it increments the counter to an
  address with a smaller bound.\<close>

definition endsBlock :: "int list \<Rightarrow> nat \<Rightarrow> bool" where
  "endsBlock mc m =
     (mc ! m = 0 \<or> mc ! m = 7 \<or> mc ! m = 19 \<or> (mc ! m = 5 \<and> m = 3) \<or>
      ((mc ! m = 1 \<or> mc ! m = 2 \<or> mc ! m = 3 \<or> mc ! m = 4 \<or> (8 \<le> mc ! m \<and> mc ! m \<le> 18)) \<and>
       Suc m < 200 \<and> stepsLeft (Suc m) < stepsLeft m))"

text \<open>A machine with the default microcode whose address bus and microcode counter are in
  their ranges.\<close>

definition wired :: "machine \<Rightarrow> bool" where
  "wired s = (microCode (project s) = microCode init \<and>
              0 \<le> addressBus s \<and> addressBus s < RAM_SIZE \<and>
              0 \<le> microCodeCounter s \<and> microCodeCounter s < MICROCODE_SIZE)"

text \<open>The initial machine after two edits of the user: microcode address 10 (the first step
  of TAKE) set to 5, and memory word 0 set to 1000 (TAKE 0).\<close>

definition selfJumpMachine :: machine where
  "selfJumpMachine =
     initialMachine\<lparr>project := init\<lparr>ram := (ram init)[0 := 1000],
                                      microCode := (microCode init)[10 := 5]\<rparr>\<rparr>"

text \<open>The project as the class maintains it: arrays of the fixed sizes, every memory word
  in its range.\<close>

definition validProject :: "johnny_project \<Rightarrow> bool" where
  "validProject p = (sized p \<and> list_all ramValueOk (ram p))"

text \<open>What \<^verbatim>\<open>fixOperandAfterRamShift\<close> computes for one word.\<close>

definition fixWord :: "int \<Rightarrow> int \<Rightarrow> int \<Rightarrow> int" where
  "fixWord startAddress delta data =
     (if getDataHigh data = 0 \<or> getDataHigh data = 10 then data
      else if getDataLow data \<ge> startAddress
      then (getDataHigh data * 1000) + (getDataLow data + delta)
      else data)"

text \<open>Machines used as examples: a two-word program (TAKE 5, then the word 7) with the
  fix-up option off and on, and a memory whose last row is in use.\<close>

definition twoWordMachine :: "int \<Rightarrow> bool \<Rightarrow> machine" where
  "twoWordMachine selected fixUp =
     initialMachine\<lparr>project := init\<lparr>ram := (ram init)[0 := 1005, 1 := 7]\<rparr>,
                    selectedRamAddress := selected, fixRamAfterShift := fixUp\<rparr>"

definition fullMachine :: machine where
  "fullMachine =
     initialMachine\<lparr>project := init\<lparr>ram := (ram init)[999 := 1]\<rparr>,
                    selectedRamAddress := 0, fixRamAfterShift := False\<rparr>"

text \<open>The initial machine after the user has stored 19999 in memory word 0; row 0 is selected
  and the fix-up option has its default, on.\<close>

definition overflowMachine :: machine where
  "overflowMachine =
     initialMachine\<lparr>project := init\<lparr>ram := (ram init)[0 := 19999]\<rparr>\<rparr>"

text \<open>The snapshot \<^verbatim>\<open>{"ram": [5], "microCode": [6], "instructionNames": {}}\<close>: its memory is
  valid, its microcode holds the reserved value 6.\<close>

definition badSnapshot :: jval where
  "badSnapshot =
     JObj [(''ram'', JArr [JNum 5]), (''microCode'', JArr [JNum 6]),
           (''instructionNames'', JObj [])]"

text \<open>The initial machine after the user has stored 11000 in memory word 0: an instruction
  with opcode 11, whose microcode block (address 110 onwards) is all zero by default. The
  second machine is the first one after the FETCH block, at microcode address 110.\<close>

definition undefinedOpcodeMachine :: machine where
  "undefinedOpcodeMachine =
     initialMachine\<lparr>project := init\<lparr>ram := (ram init)[0 := 11000]\<rparr>\<rparr>"

definition zeroEntryMachine :: machine where
  "zeroEntryMachine =
     undefinedOpcodeMachine\<lparr>addressBus := 0, dataBus := 11000, instructionRegister := 11000,
                            microCodeCounter := 110, lastAccessedRamAddress := Some 0\<rparr>"

section \<open>Properties\<close>

section \<open>Memory writes and reads\<close>

lemma padZeros_eq: "padZeros z n xs = xs @ replicate (nat (n - int (length xs))) z"
proof (induction z n xs rule: padZeros.induct)
  case (1 z n xs)
  show ?case
  proof (cases "int (length xs) < n")
    case True
    then have "nat (n - int (length xs)) = Suc (nat (n - int (length (xs @ [z]))))"
      by simp
    with True "1" show ?thesis
      by (subst padZeros.simps) (simp add: replicate_app_Cons_same)
  next
    case False
    then show ?thesis
      by (subst padZeros.simps) simp
  qed
qed

lemma length_defaultMicroCode: "length defaultMicroCode = 110"
  by (simp add: defaultMicroCode_def)

lemma microCode_init: "microCode init = defaultMicroCode @ replicate 90 0"
  by (simp add: init_def initMicroCode_def initInstructionNames_def initRam_def padZeros_eq
      length_defaultMicroCode MICROCODE_SIZE_def)

lemma ram_init: "ram init = replicate 1000 0"
  by (simp add: init_def initMicroCode_def initInstructionNames_def initRam_def RAM_SIZE_def)

lemma sized_init: "sized init"
  by (simp add: sized_def microCode_init ram_init length_defaultMicroCode RAM_SIZE_def
      MICROCODE_SIZE_def)

text \<open>
  C8. For every address in \<open>[0, RAM_SIZE)\<close> and every value in \<open>[0, MAX_RAM_VALUE]\<close>,
  \<^verbatim>\<open>setRam\<close> succeeds and a following \<^verbatim>\<open>getRam\<close> at that address returns the value; when
  the value or the address is out of range, \<^verbatim>\<open>setRam\<close> throws and the project is the one
  it was called on.
\<close>

theorem setRam_then_getRam:
  "sized p \<Longrightarrow>
     (0 \<le> a \<and> a < RAM_SIZE \<and> 0 \<le> v \<and> v \<le> MAX_RAM_VALUE \<longrightarrow>
        (\<exists>p'. setRam a v p = Ok p' \<and> getRam a p' = Inr v)) \<and>
     (a < 0 \<or> a \<ge> RAM_SIZE \<longrightarrow> setRam a v p = Err (RamAddressOutOfBounds a) p) \<and>
     (0 \<le> a \<and> a < RAM_SIZE \<and> (v < 0 \<or> v > MAX_RAM_VALUE) \<longrightarrow>
        setRam a v p = Err (RamValueOutOfBounds v) p)"
  by (auto simp: setRam_def getRam_def sized_def)

theorem setRam_then_getRam_witness:
  "sized init \<and>
   (\<exists>p'. setRam 5 42 init = Ok p' \<and> getRam 5 p' = Inr 42) \<and>
   setRam 5 20000 init = Err (RamValueOutOfBounds 20000) init \<and>
   setRam 1000 42 init = Err (RamAddressOutOfBounds 1000) init"
  using setRam_then_getRam [OF sized_init, of 5 42]
    setRam_then_getRam [OF sized_init, of 5 20000]
    setRam_then_getRam [OF sized_init, of 1000 42] sized_init
  by (simp add: RAM_SIZE_def MAX_RAM_VALUE_def MICROCODE_SIZE_def)

section \<open>Micro steps and macro steps\<close>

lemmas const_defs = RAM_SIZE_def MICROCODE_SIZE_def MAX_RAM_VALUE_def

lemmas write_defs = writeToAddressBus_def writeToDataBus_def writeToAccumulator_def
  writeToProgramCounter_def writeToInstructionRegister_def writeToMicroCodeCounter_def
  normalizeInt_def clamp_def

lemmas step_defs = dbToRamStep_def ramToDbStep_def dbToInsStep_def insToAbStep_def
  insToMcStep_def nullMcStep_def pcToAbStep_def incPcStep_def incPcIfAccZeroStep_def
  insToPcStep_def nullAccStep_def addAccStep_def subAccStep_def accToDbStep_def
  incAccStep_def decAccStep_def dbToAccStep_def stopStep_def

lemma microCode_init_nth:
  "microCode init ! 0 = 8" "microCode init ! Suc 0 = 2" "microCode init ! 2 = 3"
  "microCode init ! 3 = 5" "microCode init ! 4 = 0"
  by (simp_all add: microCode_init defaultMicroCode_def)

lemma microStep_on_fetch_fault:
  assumes "\<not> isHlt s" "0 \<le> microCodeCounter s" "microCodeCounter s < MICROCODE_SIZE"
    and "microCode (project s) ! nat (microCodeCounter s) = 5"
    and "getDataHigh (instructionRegister s) = 0"
  shows "microStep animate s =
           Ok (s\<lparr>isHlt := True, isMacroRunning := False,
                 alerts := alerts s @ [FetchError (programCounter s)]\<rparr>)"
  using assms by (simp add: microStep_def getMicroCode_def stopMacroProgram_def)

lemma microStep_on_zero:
  assumes "\<not> isHlt s" "0 \<le> microCodeCounter s" "microCodeCounter s < MICROCODE_SIZE"
    and "microCode (project s) ! nat (microCodeCounter s) = 0"
  shows "microStep animate s =
           Ok (s\<lparr>isHlt := True, isMacroRunning := False,
                 alerts := alerts s @ [MicrocodeIsZero (microCodeCounter s)]\<rparr>)"
  using assms by (simp add: microStep_def getMicroCode_def stopMacroProgram_def)

lemma first_macro_step_of_empty_program:
  assumes "microCode (project s0) = microCode init"
    and "ram (project s0) = replicate (nat RAM_SIZE) 0"
    and "programCounter s0 = 0" "microCodeCounter s0 = 0" "\<not> isHlt s0"
  shows "singleMacroStep s0 =
        Some (Ok (s0\<lparr>addressBus := 0, dataBus := 0, instructionRegister := 0,
                    microCodeCounter := 3, lastAccessedRamAddress := Some 0,
                    isHlt := True, isMacroRunning := False,
                    alerts := alerts s0 @ [FetchError 0]\<rparr>))"
proof -
  define s1 where "s1 = s0\<lparr>addressBus := 0, microCodeCounter := 1\<rparr>"
  define s2 where
    "s2 = s1\<lparr>dataBus := 0, lastAccessedRamAddress := Some 0, microCodeCounter := 2\<rparr>"
  define s3 where "s3 = s2\<lparr>instructionRegister := 0, microCodeCounter := 3\<rparr>"
  have 1: "microStep False s0 = Ok s1"
    using assms unfolding s1_def
    by (simp add: microStep_def getMicroCode_def microCode_init_nth
        executeMicroInstruction_def MICRO_INSTRUCTIONS_def step_defs write_defs const_defs)
  have 2: "microStep False s1 = Ok s2"
    using assms unfolding s1_def s2_def
    by (simp add: microStep_def getMicroCode_def microCode_init_nth getRam_def
        executeMicroInstruction_def MICRO_INSTRUCTIONS_def step_defs write_defs const_defs)
  have 3: "microStep False s2 = Ok s3"
    using assms unfolding s1_def s2_def s3_def
    by (simp add: microStep_def getMicroCode_def microCode_init_nth getRam_def
        executeMicroInstruction_def MICRO_INSTRUCTIONS_def step_defs write_defs const_defs)
  have 4: "microStep False s3 =
             Ok (s3\<lparr>isHlt := True, isMacroRunning := False, alerts := alerts s3 @ [FetchError 0]\<rparr>)"
    using assms unfolding s1_def s2_def s3_def
    by (simp add: microStep_def getMicroCode_def microCode_init_nth getDataHigh_def
        stopMacroProgram_def const_defs)
  have live: "microCodeCounter s1 \<noteq> 0 \<and> \<not> isHlt s1" "microCodeCounter s2 \<noteq> 0 \<and> \<not> isHlt s2"
    "microCodeCounter s3 \<noteq> 0 \<and> \<not> isHlt s3"
    using assms by (simp_all add: s1_def s2_def s3_def)
  have "singleMacroStep s0 = singleMacroStep s1"
    by (subst singleMacroStep.simps) (simp add: 1 live)
  also have "\<dots> = singleMacroStep s2"
    by (subst singleMacroStep.simps) (simp add: 2 live)
  also have "\<dots> = singleMacroStep s3"
    by (subst singleMacroStep.simps) (simp add: 3 live)
  also have "\<dots> = Some (Ok (s3\<lparr>isHlt := True, isMacroRunning := False,
              alerts := alerts s3 @ [FetchError 0]\<rparr>))"
    by (subst singleMacroStep.simps) (simp add: 4)
  finally show ?thesis
    by (simp add: s1_def s2_def s3_def)
qed

lemma initialMachine_fields:
  "project initialMachine = init" "programCounter initialMachine = 0"
  "microCodeCounter initialMachine = 0" "\<not> isHlt initialMachine"
  "instructionRegister initialMachine = 0" "alerts initialMachine = []"
  "\<not> isRecording initialMachine" "selectedRamAddress initialMachine = 0"
  by (simp_all add: initialMachine_def)

text \<open>
  C2. In a machine that is not halted, when \<^verbatim>\<open>microStep\<close> reads micro operation 5 at the
  microcode counter and the opcode field of the instruction register is 0, it sets
  \<open>isHlt\<close>, clears \<open>isMacroRunning\<close> and raises the FETCH error alert, changing nothing
  else. With the default microcode, an all-zero memory, program counter 0 and microcode
  counter 0, \<^verbatim>\<open>singleMacroStep\<close> returns with the machine halted by that alert.
\<close>

theorem microStep_fetch_fault:
  "(\<not> isHlt s \<and> 0 \<le> microCodeCounter s \<and> microCodeCounter s < MICROCODE_SIZE \<and>
    microCode (project s) ! nat (microCodeCounter s) = 5 \<and>
    getDataHigh (instructionRegister s) = 0 \<longrightarrow>
      microStep animate s =
        Ok (s\<lparr>isHlt := True, isMacroRunning := False,
              alerts := alerts s @ [FetchError (programCounter s)]\<rparr>)) \<and>
   (microCode (project s0) = microCode init \<and> ram (project s0) = replicate (nat RAM_SIZE) 0 \<and>
    programCounter s0 = 0 \<and> microCodeCounter s0 = 0 \<and> \<not> isHlt s0 \<longrightarrow>
      singleMacroStep s0 =
        Some (Ok (s0\<lparr>addressBus := 0, dataBus := 0, instructionRegister := 0,
                    microCodeCounter := 3, lastAccessedRamAddress := Some 0,
                    isHlt := True, isMacroRunning := False,
                    alerts := alerts s0 @ [FetchError 0]\<rparr>)))"
  using microStep_on_fetch_fault [of s animate] first_macro_step_of_empty_program [of s0]
  by blast

theorem microStep_fetch_fault_witness:
  "microStep True (initialMachine\<lparr>microCodeCounter := 3\<rparr>) =
     Ok (initialMachine\<lparr>microCodeCounter := 3, isHlt := True, isMacroRunning := False,
                        alerts := [FetchError 0]\<rparr>) \<and>
   singleMacroStep initialMachine =
     Some (Ok (initialMachine\<lparr>addressBus := 0, dataBus := 0, instructionRegister := 0,
                 microCodeCounter := 3, lastAccessedRamAddress := Some 0,
                 isHlt := True, isMacroRunning := False, alerts := [FetchError 0]\<rparr>))"
  using microStep_fetch_fault [of "initialMachine\<lparr>microCodeCounter := 3\<rparr>" True initialMachine]
  by (simp add: initialMachine_fields microCode_init_nth ram_init getDataHigh_def const_defs)

text \<open>The guard of \<^verbatim>\<open>microStep\<close> on entry 0: in a machine that is not halted, when the
  microcode entry at the microcode counter is 0, \<^verbatim>\<open>microStep\<close> does not execute the no-op;
  it sets \<open>isHlt\<close>, clears \<open>isMacroRunning\<close> and raises the microcode error alert, and
  \<^verbatim>\<open>singleMacroStep\<close> returns in that state.\<close>

lemma microStep_zero_halts:
  assumes "\<not> isHlt s" "0 \<le> microCodeCounter s" "microCodeCounter s < MICROCODE_SIZE"
    and "microCode (project s) ! nat (microCodeCounter s) = 0"
  shows "microStep animate s =
           Ok (s\<lparr>isHlt := True, isMacroRunning := False,
                 alerts := alerts s @ [MicrocodeIsZero (microCodeCounter s)]\<rparr>)"
    and "singleMacroStep s =
           Some (Ok (s\<lparr>isHlt := True, isMacroRunning := False,
                       alerts := alerts s @ [MicrocodeIsZero (microCodeCounter s)]\<rparr>))"
proof -
  show "microStep animate s =
           Ok (s\<lparr>isHlt := True, isMacroRunning := False,
                 alerts := alerts s @ [MicrocodeIsZero (microCodeCounter s)]\<rparr>)"
    by (rule microStep_on_zero [OF assms])
  show "singleMacroStep s =
           Some (Ok (s\<lparr>isHlt := True, isMacroRunning := False,
                       alerts := alerts s @ [MicrocodeIsZero (microCodeCounter s)]\<rparr>))"
    by (subst singleMacroStep.simps) (simp add: microStep_on_zero [OF assms])
qed

subsection \<open>Manual steps\<close>

lemma state_of_and_then:
  "P (state_of r) \<Longrightarrow> (\<And>s'. P s' \<Longrightarrow> P (state_of (f s'))) \<Longrightarrow> P (state_of (and_then r f))"
  by (cases r) auto

lemma and_then_Ok [simp]: "and_then r Ok = r"
  by (cases r) auto

lemma microCodeCounter_in_project [simp]:
  "microCodeCounter (state_of (in_project r s)) = microCodeCounter s"
  by (cases r) auto

lemma recordMicroStep_microCodeCounter:
  "microCodeCounter (state_of (recordMicroStep i s)) = microCodeCounter s"
  unfolding recordMicroStep_def
  by (cases "recordMicroCodeAddress s"; cases "isRecording s";
      cases "setMicroCode (the (recordMicroCodeAddress s)) i (project s)") auto

lemma exec_microCodeCounter:
  assumes "MICRO_INSTRUCTIONS mid = Some m" "mid \<noteq> 5" "mid \<noteq> 7"
  shows "microCodeCounter (state_of (exec m s)) = microCodeCounter s"
proof -
  have w: "microCodeCounter (state_of (writeToRam a v s)) = microCodeCounter s" for a v
    by (simp add: writeToRam_def)
  have d: "microCodeCounter (state_of (dbToRamStep s)) = microCodeCounter s"
    unfolding dbToRamStep_def
    by (rule state_of_and_then [where P = "\<lambda>x. microCodeCounter x = microCodeCounter s"])
       (simp_all add: w)
  have r: "microCodeCounter (state_of (ramToDbStep s)) = microCodeCounter s"
    by (simp add: ramToDbStep_def writeToDataBus_def split: sum.splits)
  from assms show ?thesis
    by (auto simp: MICRO_INSTRUCTIONS_def d r dbToInsStep_def insToAbStep_def
        pcToAbStep_def incPcStep_def incPcIfAccZeroStep_def
        insToPcStep_def nullAccStep_def addAccStep_def subAccStep_def accToDbStep_def
        incAccStep_def decAccStep_def dbToAccStep_def stopStep_def
        writeToAddressBus_def writeToDataBus_def writeToAccumulator_def
        writeToProgramCounter_def writeToInstructionRegister_def split: if_splits)
qed

text \<open>
  C7 (as amended). For every micro operation id other than 5 and 7, known or not, and every
  machine, \<^verbatim>\<open>manualMicroStep\<close> leaves the microcode counter as it was, whether it completes
  or throws; it never adds the automatic increment. Ids 7 and 5 execute their own effect on
  the counter: 7 sets it to 0 and 5 to ten times the opcode field of the instruction
  register, clamped into the microcode.
\<close>

theorem manualMicroStep_microCodeCounter:
  "(mid \<noteq> 5 \<and> mid \<noteq> 7 \<longrightarrow>
      microCodeCounter (state_of (manualMicroStep mid s)) = microCodeCounter s) \<and>
   microCodeCounter (state_of (manualMicroStep 7 s)) = 0 \<and>
   microCodeCounter (state_of (manualMicroStep 5 s)) =
     clamp (getDataHigh (instructionRegister s) * 10) 0 (MICROCODE_SIZE - 1)"
proof (intro conjI impI)
  assume "mid \<noteq> 5 \<and> mid \<noteq> 7"
  then have n: "mid \<noteq> 5" "mid \<noteq> 7" by simp_all
  show "microCodeCounter (state_of (manualMicroStep mid s)) = microCodeCounter s"
  proof (cases "MICRO_INSTRUCTIONS mid")
    case None
    then show ?thesis
      by (simp add: manualMicroStep_def executeMicroInstruction_def stopMacroProgram_def)
  next
    case (Some m)
    have "microCodeCounter (state_of
            (and_then (exec m s) (\<lambda>s1.
             and_then (if isRecording s1 \<and> True then recordMicroStep mid s1 else Ok s1) (\<lambda>s2.
             Ok (if increment m \<and> \<not> True
                 then writeToMicroCodeCounter (microCodeCounter s2 + 1) s2 else s2)))))
          = microCodeCounter s"
    proof (rule state_of_and_then [where P = "\<lambda>x. microCodeCounter x = microCodeCounter s"])
      show "microCodeCounter (state_of (exec m s)) = microCodeCounter s"
        by (rule exec_microCodeCounter [OF Some n])
    next
      fix s' :: machine
      assume s': "microCodeCounter s' = microCodeCounter s"
      show "microCodeCounter (state_of
              (and_then (if isRecording s' \<and> True then recordMicroStep mid s' else Ok s') (\<lambda>s2.
               Ok (if increment m \<and> \<not> True
                   then writeToMicroCodeCounter (microCodeCounter s2 + 1) s2 else s2))))
            = microCodeCounter s"
        by (rule state_of_and_then [where P = "\<lambda>x. microCodeCounter x = microCodeCounter s"])
           (simp_all add: s' recordMicroStep_microCodeCounter)
    qed
    with Some show ?thesis
      by (simp add: manualMicroStep_def executeMicroInstruction_def)
  qed
next
  have "microCodeCounter (state_of (recordMicroStep 7 x)) = microCodeCounter x" for x
    by (rule recordMicroStep_microCodeCounter)
  then show "microCodeCounter (state_of (manualMicroStep 7 s)) = 0"
    by (simp add: manualMicroStep_def executeMicroInstruction_def MICRO_INSTRUCTIONS_def
        nullMcStep_def writeToMicroCodeCounter_def normalizeInt_def clamp_def MICROCODE_SIZE_def)
next
  have "microCodeCounter (state_of (recordMicroStep 5 x)) = microCodeCounter x" for x
    by (rule recordMicroStep_microCodeCounter)
  then show "microCodeCounter (state_of (manualMicroStep 5 s)) =
     clamp (getDataHigh (instructionRegister s) * 10) 0 (MICROCODE_SIZE - 1)"
    by (simp add: manualMicroStep_def executeMicroInstruction_def MICRO_INSTRUCTIONS_def
        insToMcStep_def writeToMicroCodeCounter_def normalizeInt_def)
qed


theorem manualMicroStep_microCodeCounter_witness:
  "microCodeCounter (state_of (manualMicroStep 12 (initialMachine\<lparr>microCodeCounter := 3\<rparr>))) = 3 \<and>
   microCodeCounter (state_of (manualMicroStep 7 (initialMachine\<lparr>microCodeCounter := 3\<rparr>))) = 0 \<and>
   microCodeCounter (state_of (manualMicroStep 5
      (initialMachine\<lparr>microCodeCounter := 3, instructionRegister := 2005\<rparr>))) = 20"
  using manualMicroStep_microCodeCounter [of 12 "initialMachine\<lparr>microCodeCounter := 3\<rparr>"]
    manualMicroStep_microCodeCounter
      [of 12 "initialMachine\<lparr>microCodeCounter := 3, instructionRegister := 2005\<rparr>"]
  by (simp add: getDataHigh_def clamp_def const_defs)

text \<open>The claim as stated fails for ids 7 and 5: a manual step 7 from counter 3 ends at
  counter 0, and a manual step 5 with instruction 2005 ends at counter 20.\<close>

theorem manualMicroStep_moves_microCodeCounter:
  "microCodeCounter (state_of (manualMicroStep 7 (initialMachine\<lparr>microCodeCounter := 3\<rparr>)))
     \<noteq> microCodeCounter (initialMachine\<lparr>microCodeCounter := 3\<rparr>) \<and>
   microCodeCounter (state_of (manualMicroStep 5
       (initialMachine\<lparr>microCodeCounter := 3, instructionRegister := 2005\<rparr>)))
     \<noteq> microCodeCounter (initialMachine\<lparr>microCodeCounter := 3, instructionRegister := 2005\<rparr>)"
  by (simp add: manualMicroStep_def executeMicroInstruction_def MICRO_INSTRUCTIONS_def
      nullMcStep_def insToMcStep_def writeToMicroCodeCounter_def normalizeInt_def clamp_def
      getDataHigh_def initialMachine_fields const_defs)

subsection \<open>Termination of the macro step\<close>

lemma singleMacroStep_fixpoint:
  assumes "microStep False s = Ok s" "microCodeCounter s \<noteq> 0" "\<not> isHlt s"
  shows "singleMacroStep s = None"
proof -
  have "x \<noteq> s" if "singleMacroStep x = Some y" for x y
  proof (rule singleMacroStep.raw_induct [where P = "\<lambda>x y. x \<noteq> s", OF _ that])
    fix f :: "machine \<Rightarrow> machine res option" and x y
    assume ih: "\<And>x y. f x = Some y \<Longrightarrow> x \<noteq> s"
      and b: "(case microStep False x of
                 Ok s' \<Rightarrow> if microCodeCounter s' \<noteq> 0 \<and> \<not> isHlt s' then f s' else Some (Ok s')
               | Err e s' \<Rightarrow> Some (Err e s')) = Some y"
    show "x \<noteq> s"
    proof
      assume "x = s"
      with b assms have "f s = Some y" by simp
      from ih [OF this] show False by simp
    qed
  qed
  then show ?thesis by (cases "singleMacroStep s") auto
qed

lemma microCode_selfJump_nth:
  "(microCode init)[10 := 5] ! 0 = 8" "(microCode init)[10 := 5] ! Suc 0 = 2"
  "(microCode init)[10 := 5] ! 2 = 3" "(microCode init)[10 := 5] ! 3 = 5"
  "(microCode init)[10 := 5] ! 10 = 5"
  by (simp_all add: microCode_init defaultMicroCode_def)

text \<open>The claim as stated fails: on \<open>selfJumpMachine\<close> the macro step fetches TAKE 0, jumps
  to microcode address 10, and step 5 there jumps to address 10 again, for ever.\<close>

theorem singleMacroStep_never_returns: "singleMacroStep selfJumpMachine = None"
proof -
  define s0 where "s0 = selfJumpMachine"
  define s1 where "s1 = s0\<lparr>addressBus := 0, microCodeCounter := 1\<rparr>"
  define s2 where
    "s2 = s1\<lparr>dataBus := 1000, lastAccessedRamAddress := Some 0, microCodeCounter := 2\<rparr>"
  define s3 where "s3 = s2\<lparr>instructionRegister := 1000, microCodeCounter := 3\<rparr>"
  define s4 where "s4 = s3\<lparr>microCodeCounter := 10\<rparr>"
  note unf = s0_def selfJumpMachine_def initialMachine_def s1_def s2_def s3_def s4_def
  note ev = microStep_def getMicroCode_def microCode_selfJump_nth getRam_def ram_init
        executeMicroInstruction_def MICRO_INSTRUCTIONS_def step_defs write_defs const_defs
        getDataHigh_def
  have 1: "microStep False s0 = Ok s1"
    unfolding unf by (simp add: ev)
  have 2: "microStep False s1 = Ok s2"
    unfolding unf by (simp add: ev)
  have 3: "microStep False s2 = Ok s3"
    unfolding unf by (simp add: ev)
  have 4: "microStep False s3 = Ok s4"
    unfolding unf by (simp add: ev)
  have 5: "microStep False s4 = Ok s4"
    unfolding unf by (simp add: ev)
  have live: "microCodeCounter s1 \<noteq> 0 \<and> \<not> isHlt s1" "microCodeCounter s2 \<noteq> 0 \<and> \<not> isHlt s2"
    "microCodeCounter s3 \<noteq> 0 \<and> \<not> isHlt s3" "microCodeCounter s4 \<noteq> 0 \<and> \<not> isHlt s4"
    by (simp_all add: unf)
  have "singleMacroStep s0 = singleMacroStep s1"
    by (subst singleMacroStep.simps) (simp add: 1 live)
  also have "\<dots> = singleMacroStep s2"
    by (subst singleMacroStep.simps) (simp add: 2 live)
  also have "\<dots> = singleMacroStep s3"
    by (subst singleMacroStep.simps) (simp add: 3 live)
  also have "\<dots> = singleMacroStep s4"
    by (subst singleMacroStep.simps) (simp add: 4 live)
  also have "\<dots> = None"
    using 5 live by (intro singleMacroStep_fixpoint) simp_all
  finally show ?thesis by (simp add: s0_def)
qed

lemma default_table: "list_all (endsBlock (defaultMicroCode @ replicate 90 0)) [0..<200]"
  by code_simp

lemma default_table_nth:
  assumes "m < 200" shows "endsBlock (microCode init) m"
  using default_table assms by (simp add: list_all_iff microCode_init)


lemma setRam_clamped:
  "0 \<le> a \<Longrightarrow> a < 1000 \<Longrightarrow>
   setRam a (min (max v 0) 19999) p = Ok (p\<lparr>ram := (ram p)[nat a := min (max v 0) 19999]\<rparr>)"
  by (auto simp: setRam_def const_defs)

lemma executeMicroInstruction_increments:
  assumes "wired s" "\<not> isHlt s"
    and "mid = 1 \<or> mid = 2 \<or> mid = 3 \<or> mid = 4 \<or> (8 \<le> mid \<and> mid \<le> 18)"
    and "microCodeCounter s + 1 < MICROCODE_SIZE"
  shows "\<exists>s'. executeMicroInstruction mid False False s = Ok s' \<and> wired s' \<and> \<not> isHlt s' \<and>
               microCodeCounter s' = microCodeCounter s + 1"
proof -
  from assms(3) consider "mid = 1" | "mid = 2" | "mid = 3" | "mid = 4" | "mid = 8" | "mid = 9"
    | "mid = 10" | "mid = 11" | "mid = 12" | "mid = 13" | "mid = 14" | "mid = 15" | "mid = 16"
    | "mid = 17" | "mid = 18"
    by atomize_elim arith
  then show ?thesis
    using assms(1,2,4)
    by cases
      (simp_all add: executeMicroInstruction_def MICRO_INSTRUCTIONS_def step_defs write_defs
        wired_def writeToRam_def normalizeInt_def setRam_clamped getRam_def const_defs)
qed


lemma microStep_progress:
  assumes w: "wired s" and h: "\<not> isHlt s"
  shows "\<exists>s'. microStep False s = Ok s' \<and>
           (microCodeCounter s' = 0 \<or> isHlt s' \<or>
            (wired s' \<and> stepsLeft (nat (microCodeCounter s')) < stepsLeft (nat (microCodeCounter s))))"
proof -
  define m where "m = nat (microCodeCounter s)"
  define i where "i = microCode (project s) ! m"
  from w have rng: "0 \<le> microCodeCounter s" "microCodeCounter s < MICROCODE_SIZE"
    and mc: "microCode (project s) = microCode init"
    by (simp_all add: wired_def)
  then have m200: "m < 200" by (simp add: m_def MICROCODE_SIZE_def)
  have tbl: "endsBlock (microCode (project s)) m"
    using default_table_nth [OF m200] mc by simp
  have get: "getMicroCode (microCodeCounter s) (project s) = Inr i"
    using rng by (simp add: getMicroCode_def i_def m_def)
  from tbl consider (zero) "i = 0" | (seven) "i = 7" | (stop) "i = 19" | (jump) "i = 5" "m = 3"
    | (inc) "i = 1 \<or> i = 2 \<or> i = 3 \<or> i = 4 \<or> (8 \<le> i \<and> i \<le> 18)"
        "Suc m < 200" "stepsLeft (Suc m) < stepsLeft m"
    unfolding endsBlock_def i_def by blast
  then show ?thesis
  proof cases
    case zero
    then show ?thesis
      using h get by (simp add: microStep_def stopMacroProgram_def)
  next
    case seven
    then show ?thesis
      using h get
      by (simp add: microStep_def executeMicroInstruction_def MICRO_INSTRUCTIONS_def
          nullMcStep_def write_defs const_defs)
  next
    case stop
    then show ?thesis
      using h get
      by (simp add: microStep_def executeMicroInstruction_def MICRO_INSTRUCTIONS_def
          stopStep_def)
  next
    case jump
    show ?thesis
    proof (cases "getDataHigh (instructionRegister s) = 0")
      case True
      then show ?thesis
        using h get jump by (simp add: microStep_def stopMacroProgram_def)
    next
      case False
      define t where "t = clamp (getDataHigh (instructionRegister s) * 10) 0 (MICROCODE_SIZE - 1)"
      have step: "microStep False s =
                    Ok (s\<lparr>microCodeCounter := t, selectedRamAddress := programCounter s\<rparr>)"
        using h get jump False
        by (simp add: microStep_def executeMicroInstruction_def MICRO_INSTRUCTIONS_def
            insToMcStep_def writeToMicroCodeCounter_def normalizeInt_def t_def)
      have t: "t = 0 \<or> (10 \<le> t \<and> t < 200)"
        using False by (auto simp: t_def clamp_def MICROCODE_SIZE_def)
      have "stepsLeft (nat t) < stepsLeft m" if "10 \<le> t"
        using that jump(2) by (auto simp: stepsLeft_def)
      with t step w show ?thesis
        by (auto simp: wired_def m_def MICROCODE_SIZE_def)
    qed
  next
    case inc
    have nz: "i \<noteq> 0" "i \<noteq> 5" using inc(1) by auto
    have "microCodeCounter s + 1 < MICROCODE_SIZE"
      using inc(2) rng by (simp add: m_def MICROCODE_SIZE_def)
    from executeMicroInstruction_increments [OF w h inc(1) this]
    obtain s' where s': "executeMicroInstruction i False False s = Ok s'" "wired s'"
      "\<not> isHlt s'" "microCodeCounter s' = microCodeCounter s + 1"
      by blast
    have "nat (microCodeCounter s') = Suc m"
      using s'(4) rng by (simp add: m_def nat_add_distrib)
    with s' inc(3) h get nz show ?thesis
      by (simp add: microStep_def m_def)
  qed
qed

lemma singleMacroStep_wired:
  assumes "wired s"
  shows "\<exists>s'. singleMacroStep s = Some (Ok s') \<and> (microCodeCounter s' = 0 \<or> isHlt s')"
  using assms
proof (induction "stepsLeft (nat (microCodeCounter s))" arbitrary: s rule: less_induct)
  case less
  show ?case
  proof (cases "isHlt s")
    case True
    then show ?thesis
      by (subst singleMacroStep.simps) (simp add: microStep_def)
  next
    case False
    from microStep_progress [OF less.prems False]
    obtain s' where s': "microStep False s = Ok s'"
      "microCodeCounter s' = 0 \<or> isHlt s' \<or>
       (wired s' \<and> stepsLeft (nat (microCodeCounter s')) < stepsLeft (nat (microCodeCounter s)))"
      by blast
    show ?thesis
    proof (cases "microCodeCounter s' \<noteq> 0 \<and> \<not> isHlt s'")
      case True
      with s'(2) have "wired s'"
        "stepsLeft (nat (microCodeCounter s')) < stepsLeft (nat (microCodeCounter s))"
        by auto
      from less.hyps [OF this(2) this(1)] True s'(1) show ?thesis
        by (subst singleMacroStep.simps) simp
    next
      case False
      with s'(1) show ?thesis
        by (subst singleMacroStep.simps) auto
    qed
  qed
qed


text \<open>
  C4 (as amended). With the default microcode, and the address bus and the microcode counter
  in their ranges, \<^verbatim>\<open>singleMacroStep\<close> returns: its loop ends without an exception in a
  machine whose microcode counter is 0 or that is halted. Memory, the other registers and
  the halted flag are arbitrary.
\<close>

theorem singleMacroStep_terminates_on_default_microcode:
  "microCode (project s) = microCode init \<and>
   0 \<le> addressBus s \<and> addressBus s < RAM_SIZE \<and>
   0 \<le> microCodeCounter s \<and> microCodeCounter s < MICROCODE_SIZE \<longrightarrow>
     (\<exists>s'. singleMacroStep s = Some (Ok s') \<and> (microCodeCounter s' = 0 \<or> isHlt s'))"
  using singleMacroStep_wired [of s] by (simp add: wired_def)

theorem singleMacroStep_terminates_on_default_microcode_witness:
  "\<exists>s'. singleMacroStep (initialMachine\<lparr>project := init\<lparr>ram := (ram init)[0 := 1005]\<rparr>\<rparr>)
           = Some (Ok s') \<and>
         (microCodeCounter s' = 0 \<or> isHlt s')"
  using singleMacroStep_terminates_on_default_microcode
    [of "initialMachine\<lparr>project := init\<lparr>ram := (ram init)[0 := 1005]\<rparr>\<rparr>"]
  by (simp add: initialMachine_def const_defs)

subsection \<open>The zero entry in the older copy of the micro step\<close>

lemma singleMacroStep_legacy_fixpoint:
  assumes "microStep_legacy False s = Ok s" "microCodeCounter s \<noteq> 0" "\<not> isHlt s"
  shows "singleMacroStep_legacy s = None"
proof -
  have "x \<noteq> s" if "singleMacroStep_legacy x = Some y" for x y
  proof (rule singleMacroStep_legacy.raw_induct [where P = "\<lambda>x y. x \<noteq> s", OF _ that])
    fix f :: "machine \<Rightarrow> machine res option" and x y
    assume ih: "\<And>x y. f x = Some y \<Longrightarrow> x \<noteq> s"
      and b: "(case microStep_legacy False x of
                 Ok s' \<Rightarrow> if microCodeCounter s' \<noteq> 0 \<and> \<not> isHlt s' then f s' else Some (Ok s')
               | Err e s' \<Rightarrow> Some (Err e s')) = Some y"
    show "x \<noteq> s"
    proof
      assume "x = s"
      with b assms have "f s = Some y" by simp
      from ih [OF this] show False by simp
    qed
  qed
  then show ?thesis by (cases "singleMacroStep_legacy s") auto
qed

lemma microCode_init_110: "microCode init ! 110 = 0" "length (microCode init) = 200"
  by (simp_all add: microCode_init nth_append length_defaultMicroCode)

text \<open>
  C3. The older copy of \<^verbatim>\<open>microStep\<close> does not treat an active entry 0 as a fault. At
  microcode address 110, whose entry is 0, in the machine that is not halted, it executes
  the no-op and returns the machine as it was: not halted, the counter not advanced. The
  macro step that fetched the instruction 11000 therefore never returns.
\<close>

theorem singleMacroStep_legacy_executes_zero_entry:
  "microCode (project zeroEntryMachine) ! nat (microCodeCounter zeroEntryMachine) = 0 \<and>
   \<not> isHlt zeroEntryMachine \<and>
   microStep_legacy False zeroEntryMachine = Ok zeroEntryMachine \<and>
   singleMacroStep_legacy undefinedOpcodeMachine = None"
proof -
  define s0 where "s0 = undefinedOpcodeMachine"
  define s1 where "s1 = s0\<lparr>addressBus := 0, microCodeCounter := 1\<rparr>"
  define s2 where
    "s2 = s1\<lparr>dataBus := 11000, lastAccessedRamAddress := Some 0, microCodeCounter := 2\<rparr>"
  define s3 where "s3 = s2\<lparr>instructionRegister := 11000, microCodeCounter := 3\<rparr>"
  define s4 where "s4 = s3\<lparr>microCodeCounter := 110\<rparr>"
  note unf = s0_def undefinedOpcodeMachine_def initialMachine_def s1_def s2_def s3_def s4_def
  note ev = microStep_legacy_def microCode_init_nth microCode_init_110 ram_init
        executeMicroInstruction_legacy_def MICRO_INSTRUCTIONS_legacy_def MICRO_INSTRUCTIONS_def
        ramToDbStep_legacy_def step_defs write_defs const_defs getDataHigh_def
  have 1: "microStep_legacy False s0 = Ok s1"
    unfolding unf by (simp add: ev)
  have 2: "microStep_legacy False s1 = Ok s2"
    unfolding unf by (simp add: ev)
  have 3: "microStep_legacy False s2 = Ok s3"
    unfolding unf by (simp add: ev)
  have 4: "microStep_legacy False s3 = Ok s4"
    unfolding unf by (simp add: ev)
  have 5: "microStep_legacy False s4 = Ok s4"
    unfolding unf by (simp add: ev)
  have live: "microCodeCounter s1 \<noteq> 0 \<and> \<not> isHlt s1" "microCodeCounter s2 \<noteq> 0 \<and> \<not> isHlt s2"
    "microCodeCounter s3 \<noteq> 0 \<and> \<not> isHlt s3" "microCodeCounter s4 \<noteq> 0 \<and> \<not> isHlt s4"
    by (simp_all add: unf)
  have z: "zeroEntryMachine = s4"
    by (simp add: zeroEntryMachine_def unf)
  have "singleMacroStep_legacy s0 = singleMacroStep_legacy s1"
    by (subst singleMacroStep_legacy.simps) (simp add: 1 live)
  also have "\<dots> = singleMacroStep_legacy s2"
    by (subst singleMacroStep_legacy.simps) (simp add: 2 live)
  also have "\<dots> = singleMacroStep_legacy s3"
    by (subst singleMacroStep_legacy.simps) (simp add: 3 live)
  also have "\<dots> = singleMacroStep_legacy s4"
    by (subst singleMacroStep_legacy.simps) (simp add: 4 live)
  also have "\<dots> = None"
    using 5 live by (intro singleMacroStep_legacy_fixpoint) simp_all
  finally have "singleMacroStep_legacy undefinedOpcodeMachine = None"
    by (simp add: s0_def)
  moreover have "microCode (project s4) ! nat (microCodeCounter s4) = 0"
    by (simp add: unf microCode_init_110)
  ultimately show ?thesis
    using 5 live(4) by (simp add: z)
qed

text \<open>On the same machine the class-based copy halts with the microcode error alert.\<close>

lemma singleMacroStep_halts_on_zero_entry:
  "singleMacroStep zeroEntryMachine =
     Some (Ok (zeroEntryMachine\<lparr>isHlt := True, isMacroRunning := False,
                 alerts := [MicrocodeIsZero 110]\<rparr>))"
  by (subst singleMacroStep.simps)
     (simp add: microStep_def getMicroCode_def stopMacroProgram_def zeroEntryMachine_def
       undefinedOpcodeMachine_def initialMachine_def microCode_init_110 MICROCODE_SIZE_def)

section \<open>The RAM editor\<close>

lemma lastUsedBelow_range: "- 1 \<le> lastUsedBelow r n \<and> lastUsedBelow r n < int n"
  by (induction n) auto

lemma lastUsedBelow_none: "lastUsedBelow r n = - 1 \<longleftrightarrow> (\<forall>j<n. r ! j = 0)"
proof (induction n)
  case 0
  then show ?case by simp
next
  case (Suc n)
  have "lastUsedBelow r n < int n" using lastUsedBelow_range [of r n] by simp
  with Suc show ?case by (auto simp: less_Suc_eq)
qed

lemma lastUsedBelow_some:
  "lastUsedBelow r n = int l \<Longrightarrow> l < n \<and> r ! l \<noteq> 0 \<and> (\<forall>j. l < j \<and> j < n \<longrightarrow> r ! j = 0)"
proof (induction n)
  case 0
  then show ?case by simp
next
  case (Suc n)
  then show ?case by (auto simp: less_Suc_eq split: if_splits)
qed

lemma lastUsedBelow_unique:
  "l < n \<Longrightarrow> r ! l \<noteq> 0 \<Longrightarrow> (\<forall>j. l < j \<and> j < n \<longrightarrow> r ! j = 0) \<Longrightarrow> lastUsedBelow r n = int l"
proof (induction n)
  case 0
  then show ?case by simp
next
  case (Suc n)
  then show ?case by (cases "l = n") (auto simp: less_Suc_eq)
qed

lemma validProject_nth:
  "validProject p \<Longrightarrow> j < 1000 \<Longrightarrow> 0 \<le> ram p ! j \<and> ram p ! j \<le> MAX_RAM_VALUE"
  by (simp add: validProject_def sized_def list_all_length ramValueOk_def RAM_SIZE_def)

lemma validProject_update:
  "validProject p \<Longrightarrow> 0 \<le> v \<Longrightarrow> v \<le> MAX_RAM_VALUE \<Longrightarrow> validProject (p\<lparr>ram := (ram p)[k := v]\<rparr>)"
  by (cases "k < length (ram p)")
     (auto simp: validProject_def sized_def list_all_length ramValueOk_def nth_list_update)

lemma shiftRowsDown_spec:
  assumes "validProject p" "0 \<le> selected" "i < RAM_SIZE"
  shows "\<exists>r'. shiftRowsDown i selected p = Ok (p\<lparr>ram := r'\<rparr>) \<and> length r' = length (ram p) \<and>
           validProject (p\<lparr>ram := r'\<rparr>) \<and>
           (\<forall>j<length r'. r' ! j = (if selected < int j \<and> int j \<le> i then ram p ! (j - 1) else ram p ! j))"
  using assms
proof (induction i selected p rule: shiftRowsDown.induct)
  case (1 i selected p)
  show ?case
  proof (cases "i > selected")
    case False
    then show ?thesis
      using "1.prems" by (subst shiftRowsDown.simps) (auto intro!: exI [of _ "ram p"])
  next
    case True
    define v where "v = ram p ! nat (i - 1)"
    define p' where "p' = p\<lparr>ram := (ram p)[nat i := v]\<rparr>"
    have i: "0 < i" "i < 1000" using True "1.prems" by (simp_all add: RAM_SIZE_def)
    have g: "getRam (i - 1) p = Inr v" using i by (simp add: getRam_def v_def RAM_SIZE_def)
    have vok: "0 \<le> v \<and> v \<le> MAX_RAM_VALUE"
      unfolding v_def using validProject_nth [OF "1.prems"(1), of "nat (i - 1)"] i by simp
    have st: "setRam i v p = Ok p'"
      using i vok by (simp add: setRam_def p'_def RAM_SIZE_def)
    have vp': "validProject p'"
      unfolding p'_def using validProject_update [OF "1.prems"(1)] vok by simp
    from "1.IH" [OF True g st vp' "1.prems"(2)] "1.prems"(3)
    obtain r' where r': "shiftRowsDown (i - 1) selected p' = Ok (p'\<lparr>ram := r'\<rparr>)"
      "length r' = length (ram p')" "validProject (p'\<lparr>ram := r'\<rparr>)"
      "\<forall>j<length r'. r' ! j = (if selected < int j \<and> int j \<le> i - 1 then ram p' ! (j - 1) else ram p' ! j)"
      by auto
    have len: "length (ram p) = 1000"
      using "1.prems"(1) by (simp add: validProject_def sized_def RAM_SIZE_def)
    have "shiftRowsDown i selected p = Ok (p\<lparr>ram := r'\<rparr>)"
      using True g st r'(1) by (subst shiftRowsDown.simps) (simp add: p'_def)
    moreover have "length r' = length (ram p)" using r'(2) by (simp add: p'_def)
    moreover have "validProject (p\<lparr>ram := r'\<rparr>)" using r'(3) by (simp add: p'_def)
    moreover have "r' ! j = (if selected < int j \<and> int j \<le> i then ram p ! (j - 1) else ram p ! j)"
      if "j < length r'" for j
    proof -
      have a: "r' ! j = (if selected < int j \<and> int j \<le> i - 1 then ram p' ! (j - 1) else ram p' ! j)"
        using r'(4) that by simp
      show ?thesis
      proof (cases "int j = i")
        case True
        then have "j = nat i" by simp
        with a True \<open>selected < i\<close> len i show ?thesis
          by (simp add: p'_def v_def nat_diff_distrib)
      next
        case False
        with a that r'(2) i show ?thesis
          by (auto simp: p'_def nth_list_update)
      qed
    qed
    ultimately show ?thesis by blast
  qed
qed


lemma shiftRowsUp_spec:
  assumes "validProject p" "0 \<le> i" "lastUsed < RAM_SIZE"
  shows "\<exists>r'. shiftRowsUp i lastUsed p = Ok (p\<lparr>ram := r'\<rparr>) \<and> length r' = length (ram p) \<and>
           validProject (p\<lparr>ram := r'\<rparr>) \<and>
           (\<forall>j<length r'. r' ! j = (if i \<le> int j \<and> int j < lastUsed then ram p ! (j + 1) else ram p ! j))"
  using assms
proof (induction i lastUsed p rule: shiftRowsUp.induct)
  case (1 i lastUsed p)
  show ?case
  proof (cases "i < lastUsed")
    case False
    then show ?thesis
      using "1.prems" by (subst shiftRowsUp.simps) (auto intro!: exI [of _ "ram p"])
  next
    case True
    define v where "v = ram p ! nat (i + 1)"
    define p' where "p' = p\<lparr>ram := (ram p)[nat i := v]\<rparr>"
    have i: "0 \<le> i" "i + 1 < 1000" using True "1.prems" by (simp_all add: RAM_SIZE_def)
    have g: "getRam (i + 1) p = Inr v" using i by (simp add: getRam_def v_def RAM_SIZE_def)
    have vok: "0 \<le> v \<and> v \<le> MAX_RAM_VALUE"
      unfolding v_def using validProject_nth [OF "1.prems"(1), of "nat (i + 1)"] i by simp
    have st: "setRam i v p = Ok p'"
      using i vok by (simp add: setRam_def p'_def RAM_SIZE_def)
    have vp': "validProject p'"
      unfolding p'_def using validProject_update [OF "1.prems"(1)] vok by simp
    from "1.IH" [OF True g st vp' _ "1.prems"(3)] i
    obtain r' where r': "shiftRowsUp (i + 1) lastUsed p' = Ok (p'\<lparr>ram := r'\<rparr>)"
      "length r' = length (ram p')" "validProject (p'\<lparr>ram := r'\<rparr>)"
      "\<forall>j<length r'. r' ! j = (if i + 1 \<le> int j \<and> int j < lastUsed then ram p' ! (j + 1) else ram p' ! j)"
      by auto
    have len: "length (ram p) = 1000"
      using "1.prems"(1) by (simp add: validProject_def sized_def RAM_SIZE_def)
    have "shiftRowsUp i lastUsed p = Ok (p\<lparr>ram := r'\<rparr>)"
      using True g st r'(1) by (subst shiftRowsUp.simps) (simp add: p'_def)
    moreover have "length r' = length (ram p)" using r'(2) by (simp add: p'_def)
    moreover have "validProject (p\<lparr>ram := r'\<rparr>)" using r'(3) by (simp add: p'_def)
    moreover have "r' ! j = (if i \<le> int j \<and> int j < lastUsed then ram p ! (j + 1) else ram p ! j)"
      if "j < length r'" for j
    proof -
      have a: "r' ! j = (if i + 1 \<le> int j \<and> int j < lastUsed then ram p' ! (j + 1) else ram p' ! j)"
        using r'(4) that by simp
      show ?thesis
      proof (cases "int j = i")
        case True
        then have "j = nat i" by simp
        with a True \<open>i < lastUsed\<close> len i show ?thesis
          by (simp add: p'_def v_def nat_add_distrib)
      next
        case False
        with a that r'(2) i show ?thesis
          by (auto simp: p'_def nth_list_update)
      qed
    qed
    ultimately show ?thesis by blast
  qed
qed


lemma validProject_length: "validProject p \<Longrightarrow> length (ram p) = 1000"
  by (simp add: validProject_def sized_def RAM_SIZE_def)

lemma insertRamRowAbove_nofix:
  assumes v: "validProject (project s)" and nf: "\<not> fixRamAfterShift s"
    and sel: "0 \<le> selectedRamAddress s"
      "selectedRamAddress s \<le> getLastUsedRamAddress (project s)"
    and room: "getLastUsedRamAddress (project s) < RAM_SIZE - 1"
  shows "\<exists>r1. insertRamRowAbove s = Ok (s\<lparr>project := (project s)\<lparr>ram := r1\<rparr>\<rparr>) \<and>
           validProject ((project s)\<lparr>ram := r1\<rparr>) \<and>
           (\<forall>j<1000. r1 ! j =
              (if int j = selectedRamAddress s then 0
               else if selectedRamAddress s < int j \<and> int j \<le> getLastUsedRamAddress (project s) + 1
               then ram (project s) ! (j - 1) else ram (project s) ! j))"
proof -
  define p where "p = project s"
  define l where "l = getLastUsedRamAddress p"
  define k where "k = selectedRamAddress s"
  have l: "l \<noteq> - 1" "\<not> l \<ge> RAM_SIZE - 1" "l + 1 < RAM_SIZE" "0 \<le> k" "k \<le> l"
    using sel room by (simp_all add: l_def p_def k_def)
  from shiftRowsDown_spec [OF v [folded p_def] l(4) l(3)]
  obtain r' where r': "shiftRowsDown (l + 1) k p = Ok (p\<lparr>ram := r'\<rparr>)"
    "length r' = length (ram p)" "validProject (p\<lparr>ram := r'\<rparr>)"
    "\<forall>j<length r'. r' ! j = (if k < int j \<and> int j \<le> l + 1 then ram p ! (j - 1) else ram p ! j)"
    by blast
  have len: "length r' = 1000" using r'(2) validProject_length [OF v] by (simp add: p_def)
  have k1000: "k < 1000" using l by (simp add: RAM_SIZE_def)
  define r1 where "r1 = r'[nat k := 0]"
  have st: "setRam k 0 (p\<lparr>ram := r'\<rparr>) = Ok (p\<lparr>ram := r1\<rparr>)"
    using l k1000 by (simp add: setRam_def r1_def const_defs)
  have "insertRamRowAbove s = Ok (s\<lparr>project := p\<lparr>ram := r1\<rparr>\<rparr>)"
    using l r'(1) st nf
    by (simp add: insertRamRowAbove_def fixOperandAfterRamShift_def p_def [symmetric]
        l_def [symmetric] k_def [symmetric])
  moreover have "validProject (p\<lparr>ram := r1\<rparr>)"
    using validProject_update [OF r'(3), of 0 "nat k"] by (simp add: r1_def MAX_RAM_VALUE_def MICROCODE_SIZE_def)
  moreover have "r1 ! j = (if int j = k then 0
               else if k < int j \<and> int j \<le> l + 1 then ram p ! (j - 1) else ram p ! j)"
    if "j < 1000" for j
    using that r'(4) len l k1000 by (auto simp: r1_def nth_list_update)
  ultimately show ?thesis
    unfolding p_def l_def k_def by blast
qed

lemma deleteRamRow_nofix:
  assumes v: "validProject (project s)" and nf: "\<not> fixRamAfterShift s"
    and sel: "0 \<le> selectedRamAddress s"
    and used: "getLastUsedRamAddress (project s) \<noteq> - 1"
  shows "\<exists>r2. deleteRamRow s = Ok (s\<lparr>project := (project s)\<lparr>ram := r2\<rparr>\<rparr>) \<and>
           length r2 = 1000 \<and>
           (\<forall>j<1000. r2 ! j =
              (if int j = getLastUsedRamAddress (project s) then 0
               else if selectedRamAddress s \<le> int j \<and> int j < getLastUsedRamAddress (project s)
               then ram (project s) ! (j + 1) else ram (project s) ! j))"
proof -
  define p where "p = project s"
  define l where "l = getLastUsedRamAddress p"
  define k where "k = selectedRamAddress s"
  have lr: "0 \<le> l" "l < RAM_SIZE"
    using used lastUsedBelow_range [of "ram p" "nat RAM_SIZE"]
    by (simp_all add: l_def p_def getLastUsedRamAddress_def RAM_SIZE_def)
  from shiftRowsUp_spec [OF v [folded p_def] sel [folded k_def] lr(2)]
  obtain r' where r': "shiftRowsUp k l p = Ok (p\<lparr>ram := r'\<rparr>)"
    "length r' = length (ram p)" "validProject (p\<lparr>ram := r'\<rparr>)"
    "\<forall>j<length r'. r' ! j = (if k \<le> int j \<and> int j < l then ram p ! (j + 1) else ram p ! j)"
    by blast
  have len: "length r' = 1000" using r'(2) validProject_length [OF v] by (simp add: p_def)
  define r2 where "r2 = r'[nat l := 0]"
  have st: "setRam l 0 (p\<lparr>ram := r'\<rparr>) = Ok (p\<lparr>ram := r2\<rparr>)"
    using lr by (simp add: setRam_def r2_def const_defs)
  have "deleteRamRow s = Ok (s\<lparr>project := p\<lparr>ram := r2\<rparr>\<rparr>)"
    using used r'(1) st nf
    by (simp add: deleteRamRow_def fixOperandAfterRamShift_def p_def [symmetric]
        l_def [symmetric] k_def [symmetric])
  moreover have "length r2 = 1000" using len by (simp add: r2_def)
  moreover have "r2 ! j = (if int j = l then 0
               else if k \<le> int j \<and> int j < l then ram p ! (j + 1) else ram p ! j)"
    if "j < 1000" for j
    using that r'(4) len lr by (auto simp: r2_def nth_list_update)
  ultimately show ?thesis
    unfolding p_def l_def k_def by blast
qed


lemma insert_then_delete_used:
  assumes v: "validProject (project s)" and nf: "\<not> fixRamAfterShift s"
    and sel: "0 \<le> selectedRamAddress s"
      "selectedRamAddress s \<le> getLastUsedRamAddress (project s)"
    and room: "getLastUsedRamAddress (project s) < RAM_SIZE - 1"
  shows "and_then (insertRamRowAbove s) deleteRamRow = Ok s"
proof -
  define p where "p = project s"
  define k where "k = selectedRamAddress s"
  define l where "l = nat (getLastUsedRamAddress p)"
  have last: "getLastUsedRamAddress p = int l"
    using sel by (simp add: l_def p_def)
  have len: "length (ram p) = 1000" using validProject_length [OF v] by (simp add: p_def)
  from lastUsedBelow_some [of "ram p" 1000 l] last
  have l: "l < 1000" "ram p ! l \<noteq> 0" "\<forall>j. l < j \<and> j < 1000 \<longrightarrow> ram p ! j = 0"
    by (simp_all add: getLastUsedRamAddress_def RAM_SIZE_def)
  have l999: "l < 999" "k \<le> int l" "0 \<le> k"
    using room sel last by (simp_all add: p_def k_def RAM_SIZE_def)
  from insertRamRowAbove_nofix [OF v nf sel room]
  obtain r1 where r1: "insertRamRowAbove s = Ok (s\<lparr>project := p\<lparr>ram := r1\<rparr>\<rparr>)"
    "validProject (p\<lparr>ram := r1\<rparr>)"
    "\<forall>j<1000. r1 ! j =
        (if int j = k then 0
         else if k < int j \<and> int j \<le> int l + 1 then ram p ! (j - 1) else ram p ! j)"
    unfolding p_def [symmetric] k_def [symmetric] last by blast
  define s1 where "s1 = s\<lparr>project := p\<lparr>ram := r1\<rparr>\<rparr>"
  have last1: "getLastUsedRamAddress (project s1) = int (Suc l)"
    unfolding getLastUsedRamAddress_def s1_def
    using lastUsedBelow_unique [of "Suc l" 1000 r1] r1(3) l l999
    by (auto simp: RAM_SIZE_def)
  have "\<exists>r2. deleteRamRow s1 = Ok (s1\<lparr>project := (project s1)\<lparr>ram := r2\<rparr>\<rparr>) \<and>
           length r2 = 1000 \<and>
           (\<forall>j<1000. r2 ! j =
              (if int j = getLastUsedRamAddress (project s1) then 0
               else if selectedRamAddress s1 \<le> int j \<and> int j < getLastUsedRamAddress (project s1)
               then ram (project s1) ! (j + 1) else ram (project s1) ! j))"
    by (rule deleteRamRow_nofix) (use r1(2) nf sel last1 in \<open>simp_all add: s1_def\<close>)
  then obtain r2 where r2: "deleteRamRow s1 = Ok (s1\<lparr>project := (project s1)\<lparr>ram := r2\<rparr>\<rparr>)"
    "length r2 = 1000"
    "\<forall>j<1000. r2 ! j =
        (if int j = int (Suc l) then 0
         else if k \<le> int j \<and> int j < int (Suc l) then r1 ! (j + 1) else r1 ! j)"
    unfolding last1 by (auto simp: s1_def k_def)
  have "r2 = ram p"
  proof (rule nth_equalityI)
    show "length r2 = length (ram p)" using r2(2) len by simp
  next
    fix j assume "j < length r2"
    then have j: "j < 1000" using r2(2) by simp
    show "r2 ! j = ram p ! j"
    proof (cases "j = Suc l")
      case True
      then show ?thesis using r2(3) j l(3) by simp
    next
      case False
      show ?thesis
      proof (cases "k \<le> int j \<and> j < Suc l")
        case True
        then have "r2 ! j = r1 ! (j + 1)" using r2(3) j False by simp
        also have "\<dots> = ram p ! j" using r1(3) True l999 by simp
        finally show ?thesis .
      next
        case False
        with \<open>j \<noteq> Suc l\<close> have "r2 ! j = r1 ! j" using r2(3) j by auto
        also have "\<dots> = ram p ! j" using r1(3) j False \<open>j \<noteq> Suc l\<close> l999 by auto
        finally show ?thesis .
      qed
    qed
  qed
  then have "deleteRamRow s1 = Ok s"
    using r2(1) by (simp add: s1_def p_def)
  then show ?thesis
    using r1(1) by (simp add: s1_def)
qed

text \<open>
  C6 (as amended). With the fix-up option off, the memory valid and a selected row at or
  above 0: when memory is all zero, or the selected row is not below the last used row and
  the last used row is not the last row of memory, \<^verbatim>\<open>insertRamRowAbove\<close> followed by
  \<^verbatim>\<open>deleteRamRow\<close> completes and leaves the machine, and so the memory, exactly as it was.
\<close>

theorem insert_then_delete_restores:
  "validProject (project s) \<and> \<not> fixRamAfterShift s \<and> 0 \<le> selectedRamAddress s \<and>
   (getLastUsedRamAddress (project s) = - 1 \<or>
    (selectedRamAddress s \<le> getLastUsedRamAddress (project s) \<and>
     getLastUsedRamAddress (project s) < RAM_SIZE - 1)) \<longrightarrow>
   and_then (insertRamRowAbove s) deleteRamRow = Ok s"
proof (intro impI, elim conjE disjE)
  assume "getLastUsedRamAddress (project s) = - 1"
  then show "and_then (insertRamRowAbove s) deleteRamRow = Ok s"
    by (simp add: insertRamRowAbove_def deleteRamRow_def)
next
  assume "validProject (project s)" "\<not> fixRamAfterShift s" "0 \<le> selectedRamAddress s"
    "selectedRamAddress s \<le> getLastUsedRamAddress (project s)"
    "getLastUsedRamAddress (project s) < RAM_SIZE - 1"
  then show "and_then (insertRamRowAbove s) deleteRamRow = Ok s"
    by (rule insert_then_delete_used)
qed

lemma validProject_init: "validProject init"
  by (simp add: validProject_def sized_init ram_init list_all_length ramValueOk_def const_defs)

lemma twoWordMachine_facts:
  "validProject (project (twoWordMachine k f))"
  "getLastUsedRamAddress (project (twoWordMachine k f)) = 1"
  "selectedRamAddress (twoWordMachine k f) = k"
  "fixRamAfterShift (twoWordMachine k f) = f"
proof -
  show "validProject (project (twoWordMachine k f))"
    using validProject_update [OF validProject_update [OF validProject_init, of 1005 0], of 7 1]
    by (simp add: twoWordMachine_def const_defs)
  have "lastUsedBelow ((ram init)[0 := 1005, 1 := 7]) 1000 = int 1"
    by (rule lastUsedBelow_unique) (auto simp: ram_init)
  then show "getLastUsedRamAddress (project (twoWordMachine k f)) = 1"
    by (simp add: getLastUsedRamAddress_def twoWordMachine_def RAM_SIZE_def)
qed (simp_all add: twoWordMachine_def)

theorem insert_then_delete_restores_witness:
  "and_then (insertRamRowAbove (twoWordMachine 0 False)) deleteRamRow = Ok (twoWordMachine 0 False)"
  using insert_then_delete_restores [of "twoWordMachine 0 False"]
  by (simp add: twoWordMachine_facts RAM_SIZE_def)

lemma fullMachine_facts:
  "validProject (project fullMachine)"
  "getLastUsedRamAddress (project fullMachine) = 999"
  "selectedRamAddress fullMachine = 0"
  "\<not> fixRamAfterShift fullMachine"
proof -
  show "validProject (project fullMachine)"
    using validProject_update [OF validProject_init, of 1 999]
    by (simp add: fullMachine_def const_defs)
  have "lastUsedBelow ((ram init)[999 := 1]) 1000 = int 999"
    by (rule lastUsedBelow_unique) (auto simp: ram_init)
  then show "getLastUsedRamAddress (project fullMachine) = 999"
    by (simp add: getLastUsedRamAddress_def fullMachine_def RAM_SIZE_def)
qed (simp_all add: fullMachine_def)

text \<open>The claim as stated fails when the last row of memory is in use: the insertion is
  refused and changes nothing, the deletion still shifts every row up; row 998 then
  holds the word of row 999.\<close>

theorem insert_then_delete_on_full_memory:
  "ram (project (state_of (and_then (insertRamRowAbove fullMachine) deleteRamRow))) ! 998
     \<noteq> ram (project fullMachine) ! 998"
proof -
  define s1 where "s1 = fullMachine\<lparr>alerts := alerts fullMachine @ [RamIsFull]\<rparr>"
  have ins: "insertRamRowAbove fullMachine = Ok s1"
    by (simp add: insertRamRowAbove_def fullMachine_facts s1_def RAM_SIZE_def)
  have f1: "validProject (project s1)" "\<not> fixRamAfterShift s1" "0 \<le> selectedRamAddress s1"
    "getLastUsedRamAddress (project s1) \<noteq> - 1"
    by (simp_all add: s1_def fullMachine_facts)
  from deleteRamRow_nofix [OF f1]
  obtain r2 where r2: "deleteRamRow s1 = Ok (s1\<lparr>project := (project s1)\<lparr>ram := r2\<rparr>\<rparr>)"
    "\<forall>j<1000. r2 ! j =
        (if int j = getLastUsedRamAddress (project s1) then 0
         else if selectedRamAddress s1 \<le> int j \<and> int j < getLastUsedRamAddress (project s1)
         then ram (project s1) ! (j + 1) else ram (project s1) ! j)"
    by blast
  from r2(2) have "r2 ! 998 = ram (project s1) ! 999"
    by (simp add: s1_def fullMachine_facts)
  then have "r2 ! 998 = 1"
    by (simp add: s1_def fullMachine_def ram_init)
  moreover have "ram (project fullMachine) ! 998 = 0"
    by (simp add: fullMachine_def ram_init)
  ultimately show ?thesis
    using ins r2(1) by simp
qed

subsection \<open>The operand fix-up\<close>

lemma high_low_recombine: "0 \<le> data \<Longrightarrow> getDataHigh data * 1000 + getDataLow data = data"
  by (simp add: getDataHigh_def getDataLow_def RAM_SIZE_def)

lemma high_low_nonneg: "0 \<le> data \<Longrightarrow> 0 \<le> getDataHigh data \<and> 0 \<le> getDataLow data"
  by (simp add: getDataHigh_def getDataLow_def RAM_SIZE_def)

lemma fixWord_decrement_ok:
  assumes "ramValueOk data" shows "ramValueOk (fixWord st (- 1) data)"
proof -
  from assms have d: "0 \<le> data" "data \<le> MAX_RAM_VALUE" by (simp_all add: ramValueOk_def)
  note hl = high_low_recombine [OF d(1)] high_low_nonneg [OF d(1)]
  show ?thesis
  proof (cases "fixWord st (- 1) data = data")
    case True
    with assms show ?thesis by simp
  next
    case False
    then have f: "fixWord st (- 1) data = getDataHigh data * 1000 + (getDataLow data + - 1)"
      "getDataHigh data \<noteq> 0"
      by (auto simp: fixWord_def split: if_splits)
    with hl d show ?thesis by (simp add: ramValueOk_def)
  qed
qed

lemma fixOperandsFrom_step:
  assumes "0 \<le> a" "a < RAM_SIZE" "ramValueOk (fixWord st d (ram p ! nat a))"
  shows "fixOperandsFrom a st d p =
           fixOperandsFrom (a + 1) st d (p\<lparr>ram := (ram p)[nat a := fixWord st d (ram p ! nat a)]\<rparr>)"
  using assms
  by (subst fixOperandsFrom.simps)
     (auto simp: getRam_def setRam_def fixWord_def ramValueOk_def)

lemma fixOperandsFrom_spec:
  assumes "int (length (ram p)) = RAM_SIZE" "0 \<le> a"
    and "\<forall>j. nat a \<le> j \<and> j < 1000 \<longrightarrow> ramValueOk (fixWord st d (ram p ! j))"
  shows "\<exists>r'. fixOperandsFrom a st d p = Ok (p\<lparr>ram := r'\<rparr>) \<and> length r' = length (ram p) \<and>
           (\<forall>j<1000. r' ! j = (if a \<le> int j then fixWord st d (ram p ! j) else ram p ! j))"
  using assms
proof (induction "nat (RAM_SIZE - a)" arbitrary: a p)
  case 0
  then have "\<not> a < RAM_SIZE" by simp
  then have "fixOperandsFrom a st d p = Ok p"
    by (subst fixOperandsFrom.simps) simp
  moreover have "\<not> a \<le> int j" if "j < 1000" for j
    using that \<open>\<not> a < RAM_SIZE\<close> by (simp add: RAM_SIZE_def)
  ultimately show ?case
    by (auto intro!: exI [of _ "ram p"])
next
  case (Suc n)
  then have a: "0 \<le> a" "a < RAM_SIZE" by simp_all
  define p' where "p' = p\<lparr>ram := (ram p)[nat a := fixWord st d (ram p ! nat a)]\<rparr>"
  have ok: "ramValueOk (fixWord st d (ram p ! nat a))"
    using Suc.prems(3) a by (simp add: RAM_SIZE_def)
  have step: "fixOperandsFrom a st d p = fixOperandsFrom (a + 1) st d p'"
    unfolding p'_def by (rule fixOperandsFrom_step [OF a ok])
  have "\<exists>r'. fixOperandsFrom (a + 1) st d p' = Ok (p'\<lparr>ram := r'\<rparr>) \<and> length r' = length (ram p') \<and>
           (\<forall>j<1000. r' ! j = (if a + 1 \<le> int j then fixWord st d (ram p' ! j) else ram p' ! j))"
  proof (rule Suc.hyps(1))
    show "n = nat (RAM_SIZE - (a + 1))" using Suc.hyps(2) by simp
    show "int (length (ram p')) = RAM_SIZE" using Suc.prems(1) by (simp add: p'_def)
    show "0 \<le> a + 1" using a by simp
    show "\<forall>j. nat (a + 1) \<le> j \<and> j < 1000 \<longrightarrow> ramValueOk (fixWord st d (ram p' ! j))"
      using Suc.prems(3) a by (auto simp: p'_def)
  qed
  then obtain r' where r': "fixOperandsFrom (a + 1) st d p' = Ok (p'\<lparr>ram := r'\<rparr>)"
    "length r' = length (ram p')"
    "\<forall>j<1000. r' ! j = (if a + 1 \<le> int j then fixWord st d (ram p' ! j) else ram p' ! j)"
    by blast
  have "fixOperandsFrom a st d p = Ok (p\<lparr>ram := r'\<rparr>)"
    using step r'(1) by (simp add: p'_def)
  moreover have "length r' = length (ram p)" using r'(2) by (simp add: p'_def)
  moreover have "r' ! j = (if a \<le> int j then fixWord st d (ram p ! j) else ram p ! j)"
    if "j < 1000" for j
  proof (cases "int j = a")
    case True
    then have "j = nat a" by simp
    with r'(3) that a Suc.prems(1) show ?thesis
      by (simp add: p'_def RAM_SIZE_def)
  next
    case False
    with r'(3) that a show ?thesis
      by (auto simp: p'_def)
  qed
  ultimately show ?case by blast
qed

subsection \<open>Deleting below the last used row\<close>

lemma getLastUsedRamAddress_used:
  assumes "sized p"
  shows "getLastUsedRamAddress p \<noteq> - 1 \<longleftrightarrow> (\<exists>v \<in> set (ram p). v \<noteq> 0)"
proof -
  from assms have "int (length (ram p)) = RAM_SIZE" by (simp add: sized_def)
  then have "nat (int (length (ram p))) = nat RAM_SIZE" by simp
  then have "length (ram p) = nat RAM_SIZE" by simp
  then show ?thesis
    unfolding getLastUsedRamAddress_def lastUsedBelow_none
    by (metis in_set_conv_nth)
qed

lemma deleteRamRow_selected_below:
  assumes used: "getLastUsedRamAddress (project s) \<noteq> - 1"
    and below: "selectedRamAddress s > getLastUsedRamAddress (project s)"
  shows "deleteRamRow s =
           fixOperandAfterRamShift (selectedRamAddress s) (- 1)
             (s\<lparr>project := (project s)
                  \<lparr>ram := (ram (project s))[nat (getLastUsedRamAddress (project s)) := 0]\<rparr>\<rparr>)"
proof -
  define l where "l = getLastUsedRamAddress (project s)"
  have lr: "0 \<le> l" "l < RAM_SIZE"
    using used lastUsedBelow_range [of "ram (project s)" "nat RAM_SIZE"]
    by (simp_all add: l_def getLastUsedRamAddress_def RAM_SIZE_def)
  have sh: "shiftRowsUp (selectedRamAddress s) l (project s) = Ok (project s)"
    using below by (subst shiftRowsUp.simps) (simp add: l_def)
  have st: "setRam l 0 (project s) = Ok ((project s)\<lparr>ram := (ram (project s))[nat l := 0]\<rparr>)"
    using lr by (simp add: setRam_def const_defs)
  show ?thesis
    using used sh st by (simp add: deleteRamRow_def l_def [symmetric])
qed

text \<open>
  C10 (as amended). When memory holds a nonzero word and the selected row is below the last
  used row (its address is greater), \<^verbatim>\<open>deleteRamRow\<close> shifts nothing and sets the last used
  word, which is nonzero, to 0; the operand fix-up with delta \<open>-1\<close> then runs on that
  memory. With the fix-up option off, the result is exactly the memory with that one word
  cleared.
\<close>

theorem deleteRamRow_below_selection:
  "sized (project s) \<and> (\<exists>v \<in> set (ram (project s)). v \<noteq> 0) \<and>
   selectedRamAddress s > getLastUsedRamAddress (project s) \<longrightarrow>
     ram (project s) ! nat (getLastUsedRamAddress (project s)) \<noteq> 0 \<and>
     deleteRamRow s =
       fixOperandAfterRamShift (selectedRamAddress s) (- 1)
         (s\<lparr>project := (project s)
              \<lparr>ram := (ram (project s))[nat (getLastUsedRamAddress (project s)) := 0]\<rparr>\<rparr>) \<and>
     (\<not> fixRamAfterShift s \<longrightarrow>
        deleteRamRow s =
          Ok (s\<lparr>project := (project s)
                 \<lparr>ram := (ram (project s))[nat (getLastUsedRamAddress (project s)) := 0]\<rparr>\<rparr>))"
proof (intro impI, elim conjE)
  assume sz: "sized (project s)" and nz: "\<exists>v \<in> set (ram (project s)). v \<noteq> 0"
    and below: "selectedRamAddress s > getLastUsedRamAddress (project s)"
  have used: "getLastUsedRamAddress (project s) \<noteq> - 1"
    using getLastUsedRamAddress_used [OF sz] nz by simp
  define l where "l = nat (getLastUsedRamAddress (project s))"
  have "getLastUsedRamAddress (project s) = int l"
    using used lastUsedBelow_range [of "ram (project s)" "nat RAM_SIZE"]
    by (simp add: l_def getLastUsedRamAddress_def)
  then have "lastUsedBelow (ram (project s)) (nat RAM_SIZE) = int l"
    by (simp add: getLastUsedRamAddress_def)
  from lastUsedBelow_some [OF this] have top: "ram (project s) ! l \<noteq> 0" by simp
  note del = deleteRamRow_selected_below [OF used below]
  show "ram (project s) ! nat (getLastUsedRamAddress (project s)) \<noteq> 0 \<and>
     deleteRamRow s =
       fixOperandAfterRamShift (selectedRamAddress s) (- 1)
         (s\<lparr>project := (project s)
              \<lparr>ram := (ram (project s))[nat (getLastUsedRamAddress (project s)) := 0]\<rparr>\<rparr>) \<and>
     (\<not> fixRamAfterShift s \<longrightarrow>
        deleteRamRow s =
          Ok (s\<lparr>project := (project s)
                 \<lparr>ram := (ram (project s))[nat (getLastUsedRamAddress (project s)) := 0]\<rparr>\<rparr>))"
    using top del by (simp add: l_def fixOperandAfterRamShift_def)
qed

lemma twoWordMachine_ram:
  "ram (project (twoWordMachine k f)) = (replicate 1000 0)[0 := 1005, 1 := 7]"
  "sized (project (twoWordMachine k f))"
  using twoWordMachine_facts(1) [of k f]
  by (simp_all add: twoWordMachine_def ram_init validProject_def)

theorem deleteRamRow_below_selection_witness:
  "deleteRamRow (twoWordMachine 3 False) =
     Ok ((twoWordMachine 3 False)
           \<lparr>project := (project (twoWordMachine 3 False))
              \<lparr>ram := (replicate 1000 0)[0 := 1005, 1 := 0]\<rparr>\<rparr>)"
proof -
  have "\<exists>v \<in> set (ram (project (twoWordMachine 3 False))). v \<noteq> 0"
    by (rule bexI [of _ 7]) (simp_all add: twoWordMachine_ram in_set_conv_nth exI [of _ 1])
  with deleteRamRow_below_selection [of "twoWordMachine 3 False"]
  show ?thesis
    by (simp add: twoWordMachine_facts twoWordMachine_ram fixOperandAfterRamShift_def)
qed


text \<open>The claim as stated fails with the fix-up option on (its default): deleting with
  row 3 selected, in a memory whose last used row is 1, rewrites row 0 from 1005 to 1004.\<close>

theorem deleteRamRow_fixup_rewrites_row_0:
  "getLastUsedRamAddress (project (twoWordMachine 3 True)) = 1 \<and>
   ram (project (twoWordMachine 3 True)) ! 0 = 1005 \<and>
   ram (project (state_of (deleteRamRow (twoWordMachine 3 True)))) ! 0 = 1004"
proof -
  define s where "s = twoWordMachine 3 True"
  define p1 where "p1 = (project s)\<lparr>ram := (ram (project s))[nat 1 := 0]\<rparr>"
  have del: "deleteRamRow s =
               fixOperandAfterRamShift 3 (- 1) (s\<lparr>project := p1\<rparr>)"
    using deleteRamRow_selected_below [of s]
    by (simp add: s_def p1_def twoWordMachine_facts)
  have v1: "validProject p1"
    unfolding p1_def s_def
    using validProject_update [OF twoWordMachine_facts(1) [of 3 True], of 0 "nat 1"]
    by (simp add: const_defs)
  have "ramValueOk (fixWord 3 (- 1) (ram p1 ! j))" if "j < 1000" for j
    by (rule fixWord_decrement_ok) (use validProject_nth [OF v1 that] in \<open>simp add: ramValueOk_def\<close>)
  then have ok: "\<forall>j. nat 0 \<le> j \<and> j < 1000 \<longrightarrow> ramValueOk (fixWord 3 (- 1) (ram p1 ! j))"
    by simp
  have len: "int (length (ram p1)) = RAM_SIZE"
    using v1 by (simp add: validProject_def sized_def)
  from fixOperandsFrom_spec [OF len _ ok]
  obtain r' where r': "fixOperandsFrom 0 3 (- 1) p1 = Ok (p1\<lparr>ram := r'\<rparr>)"
    "\<forall>j<1000. r' ! j = (if 0 \<le> int j then fixWord 3 (- 1) (ram p1 ! j) else ram p1 ! j)"
    by auto
  from r'(2) have "r' ! 0 = fixWord 3 (- 1) (ram p1 ! 0)" by simp
  also have "ram p1 ! 0 = 1005"
    by (simp add: p1_def s_def twoWordMachine_ram)
  also have "fixWord 3 (- 1) 1005 = 1004"
    by (simp add: fixWord_def getDataHigh_def getDataLow_def RAM_SIZE_def)
  finally have "r' ! 0 = 1004" .
  moreover have "state_of (deleteRamRow s) = s\<lparr>project := p1\<lparr>ram := r'\<rparr>\<rparr>"
    using del r'(1) by (simp add: fixOperandAfterRamShift_def s_def twoWordMachine_facts)
  ultimately show ?thesis
    by (simp add: s_def [symmetric]) (simp add: s_def twoWordMachine_facts twoWordMachine_ram)
qed

subsection \<open>The fix-up and the memory bound\<close>

lemma fixOperandsFrom_legacy_step:
  assumes "a < length r"
  shows "fixOperandsFrom_legacy a st d r =
           fixOperandsFrom_legacy (a + 1) st d (r[a := fixWord st d (r ! a)])"
  using assms by (subst fixOperandsFrom_legacy.simps) (simp add: fixWord_def)

lemma fixOperandsFrom_legacy_spec:
  "length (fixOperandsFrom_legacy a st d r) = length r \<and>
   (\<forall>j<length r. fixOperandsFrom_legacy a st d r ! j =
        (if a \<le> j then fixWord st d (r ! j) else r ! j))"
proof (induction "length r - a" arbitrary: a r)
  case 0
  then have "fixOperandsFrom_legacy a st d r = r"
    by (subst fixOperandsFrom_legacy.simps) simp
  with 0 show ?case by simp
next
  case (Suc n)
  then have a: "a < length r" by simp
  define r1 where "r1 = r[a := fixWord st d (r ! a)]"
  have "n = length r1 - (a + 1)" using Suc.hyps(2) by (simp add: r1_def)
  from Suc.hyps(1) [OF this]
  have ih: "length (fixOperandsFrom_legacy (a + 1) st d r1) = length r1"
    "\<forall>j<length r1. fixOperandsFrom_legacy (a + 1) st d r1 ! j =
        (if a + 1 \<le> j then fixWord st d (r1 ! j) else r1 ! j)"
    by simp_all
  have step: "fixOperandsFrom_legacy a st d r = fixOperandsFrom_legacy (a + 1) st d r1"
    unfolding r1_def by (rule fixOperandsFrom_legacy_step [OF a])
  have "fixOperandsFrom_legacy (a + 1) st d r1 ! j =
          (if a \<le> j then fixWord st d (r ! j) else r ! j)" if "j < length r" for j
  proof (cases "j = a")
    case True
    with ih(2) a show ?thesis by (simp add: r1_def)
  next
    case False
    with ih(2) that show ?thesis by (auto simp: r1_def)
  qed
  with ih(1) show ?case
    unfolding step by (simp add: r1_def)
qed

lemma clear_row_0:
  "xs ! 0 = z \<Longrightarrow> xs[0 := a, Suc 0 := b, 0 := z] = xs[Suc 0 := b]"
proof (rule nth_equalityI)
  fix i assume i: "i < length (xs[0 := a, Suc 0 := b, 0 := z])" and z: "xs ! 0 = z"
  show "xs[0 := a, Suc 0 := b, 0 := z] ! i = xs[Suc 0 := b] ! i"
  proof (cases "i = 0")
    case True
    with i z show ?thesis by simp
  next
    case False
    with i show ?thesis by (cases "i = Suc 0") simp_all
  qed
qed simp

lemma overflowMachine_facts:
  "ram (project overflowMachine) = (replicate 1000 0)[0 := 19999]"
  "selectedRamAddress overflowMachine = 0"
  "fixRamAfterShift overflowMachine"
  "getLastUsedRamAddress (project overflowMachine) = 0"
  "getLastUsedRamAddress_legacy ((replicate 1000 0)[0 := 19999]) = 0"
proof -
  show r: "ram (project overflowMachine) = (replicate 1000 0)[0 := 19999]"
    by (simp add: overflowMachine_def ram_init)
  have "lastUsedBelow ((replicate 1000 0)[0 := 19999]) 1000 = int 0"
    by (rule lastUsedBelow_unique) auto
  then show "getLastUsedRamAddress (project overflowMachine) = 0"
    "getLastUsedRamAddress_legacy ((replicate 1000 0)[0 := 19999]) = 0"
    by (simp_all add: getLastUsedRamAddress_def getLastUsedRamAddress_legacy_def r RAM_SIZE_def)
qed (simp_all add: overflowMachine_def initialMachine_def)

lemma fixWord_examples:
  "fixWord 0 1 0 = 0" "fixWord 0 1 19999 = 20000"
  by (simp_all add: fixWord_def getDataHigh_def getDataLow_def RAM_SIZE_def)

text \<open>
  C5. The memory bound is not an invariant of the older copy of the RAM editor. From the
  memory that holds 19999 in word 0, inserting a row above row 0 moves the word to row 1
  and the fix-up rewrites it as \<open>19 * 1000 + (999 + 1)\<close>: memory word 1 is 20000, above
  \<open>MAX_RAM_VALUE\<close>.
\<close>

theorem insertRamRowAbove_legacy_stores_20000:
  "insertRamRowAbove_legacy overflowMachine =
     Some (overflowMachine\<lparr>project := (project overflowMachine)
             \<lparr>ram := (replicate 1000 0)[1 := 20000]\<rparr>\<rparr>) \<and>
   MAX_RAM_VALUE < (replicate 1000 0)[1 := 20000] ! 1"
proof -
  define r where "r = (replicate 1000 (0::int))[0 := 19999]"
  define r1 where "r1 = (replicate 1000 (0::int))[1 := 19999]"
  have sh: "shiftRowsDown_legacy 1 0 r = r[1 := 19999]"
    by (subst shiftRowsDown_legacy.simps, simp, subst shiftRowsDown_legacy.simps)
       (simp add: r_def)
  have "(r[1 := 19999])[nat 0 := 0] = r1"
    by (simp add: r_def r1_def clear_row_0)
  with sh have sh1: "(shiftRowsDown_legacy (0 + 1) 0 r)[nat 0 := 0] = r1" by simp
  have "fixOperandsFrom_legacy 0 0 1 r1 = (replicate 1000 0)[1 := 20000]"
  proof (rule nth_equalityI)
    show "length (fixOperandsFrom_legacy 0 0 1 r1) = length ((replicate 1000 (0::int))[1 := 20000])"
      using fixOperandsFrom_legacy_spec [of 0 0 1 r1] by (simp add: r1_def)
  next
    fix j assume "j < length (fixOperandsFrom_legacy 0 0 1 r1)"
    then have j: "j < 1000"
      using fixOperandsFrom_legacy_spec [of 0 0 1 r1] by (simp add: r1_def)
    then have "fixOperandsFrom_legacy 0 0 1 r1 ! j = fixWord 0 1 (r1 ! j)"
      using fixOperandsFrom_legacy_spec [of 0 0 1 r1] by (simp add: r1_def)
    also have "\<dots> = (replicate 1000 0)[1 := 20000] ! j"
      using j by (cases "j = 1") (simp_all add: r1_def fixWord_examples)
    finally show "fixOperandsFrom_legacy 0 0 1 r1 ! j = (replicate 1000 0)[1 := 20000] ! j" .
  qed
  then show ?thesis
    using sh1 [unfolded r_def]
    by (simp add: insertRamRowAbove_legacy_def fixOperandAfterRamShift_legacy_def
        overflowMachine_facts const_defs)
qed

text \<open>The class-based copy computes the same word and hands it to \<^verbatim>\<open>setRam\<close>, which throws:
  the insertion ends with an exception, the fix-up unfinished and memory in its range.\<close>

lemma insertRamRowAbove_throws_on_overflow:
  "insertRamRowAbove overflowMachine =
     Err (RamValueOutOfBounds 20000)
       (overflowMachine\<lparr>project := (project overflowMachine)
          \<lparr>ram := (replicate 1000 0)[1 := 19999]\<rparr>\<rparr>)"
proof -
  define p where "p = project overflowMachine"
  define p1 where "p1 = p\<lparr>ram := (replicate 1000 0)[0 := 19999, 1 := 19999]\<rparr>"
  define p2 where "p2 = p\<lparr>ram := (replicate 1000 0)[1 := 19999]\<rparr>"
  have rp: "ram p = (replicate 1000 0)[0 := 19999]"
    by (simp add: p_def overflowMachine_facts)
  have sh: "shiftRowsDown 1 0 p = Ok p1"
    by (subst shiftRowsDown.simps, simp add: getRam_def setRam_def rp const_defs,
        subst shiftRowsDown.simps) (simp add: p1_def rp)
  have st: "setRam 0 0 p1 = Ok p2"
    by (simp add: setRam_def p1_def p2_def const_defs clear_row_0)
  have "fixOperandsFrom 0 0 1 p2 = fixOperandsFrom 1 0 1 p2"
    by (subst fixOperandsFrom.simps)
       (simp add: getRam_def p2_def getDataHigh_def const_defs)
  also have "\<dots> = Err (RamValueOutOfBounds 20000) p2"
    by (subst fixOperandsFrom.simps)
       (simp add: getRam_def setRam_def p2_def getDataHigh_def getDataLow_def const_defs)
  finally have fx: "fixOperandsFrom 0 0 1 p2 = Err (RamValueOutOfBounds 20000) p2" .
  show ?thesis
    using sh st fx overflowMachine_facts(4) [folded p_def]
    by (simp add: insertRamRowAbove_def fixOperandAfterRamShift_def overflowMachine_facts(2,3)
        p_def [symmetric] p2_def RAM_SIZE_def)
qed

section \<open>Recording\<close>

lemma map_of_setProperty: "map_of (setProperty kvs k v) k = Some v"
  by (induction kvs) auto

lemma trim_LOOP: "trim ''LOOP'' = ''LOOP''"
  by (simp add: trim_def isSpace_def)

lemma toggleRecording_LOOP:
  assumes "\<not> isRecording s"
  shows "toggleRecording (Some 20) ''LOOP'' s =
           s\<lparr>isRecording := True, recordMicroCodeAddress := Some 20,
             project := (project s)\<lparr>instructionNames :=
               setProperty (instructionNames (project s)) (propertyKey 2) (JStr ''LOOP'')\<rparr>\<rparr>"
  using assms
  by (simp add: toggleRecording_def startRecording_def setInstructionName_def trim_LOOP
      MICROCODE_SIZE_def)

text \<open>
  C9. In a machine that is not recording, starting a recording at microcode address 20 with
  the name LOOP turns recording on, sets the recording address to 20 and names opcode 2
  LOOP; recording micro steps 1 and 2 then writes 1 at microcode address 20 and 2 at 21,
  moving the recording address to 21 and then to 22.
\<close>

theorem recording_LOOP_at_20:
  "\<not> isRecording s \<and> sized (project s) \<longrightarrow>
     isRecording (toggleRecording (Some 20) ''LOOP'' s) \<and>
     recordMicroCodeAddress (toggleRecording (Some 20) ''LOOP'' s) = Some 20 \<and>
     getInstructionName 2 (project (toggleRecording (Some 20) ''LOOP'' s)) = Some (JStr ''LOOP'') \<and>
     (\<exists>s2 s3. recordMicroStep 1 (toggleRecording (Some 20) ''LOOP'' s) = Ok s2 \<and>
              recordMicroCodeAddress s2 = Some 21 \<and>
              microCode (project s2) ! 20 = 1 \<and>
              recordMicroStep 2 s2 = Ok s3 \<and>
              recordMicroCodeAddress s3 = Some 22 \<and>
              microCode (project s3) ! 20 = 1 \<and> microCode (project s3) ! 21 = 2)"
proof (intro impI, elim conjE)
  assume nr: "\<not> isRecording s" and sz: "sized (project s)"
  define s1 where "s1 = toggleRecording (Some 20) ''LOOP'' s"
  have len: "length (microCode (project s)) = 200"
    using sz by (simp add: sized_def MICROCODE_SIZE_def)
  note t = toggleRecording_LOOP [OF nr]
  define s2 where "s2 = s1\<lparr>project := (project s1)\<lparr>microCode := (microCode (project s1))[20 := 1]\<rparr>,
                            recordMicroCodeAddress := Some 21\<rparr>"
  define s3 where "s3 = s2\<lparr>project := (project s2)\<lparr>microCode := (microCode (project s2))[21 := 2]\<rparr>,
                            recordMicroCodeAddress := Some 22\<rparr>"
  have r1: "recordMicroStep 1 s1 = Ok s2"
    by (simp add: recordMicroStep_def setMicroCode_def s1_def s2_def t MICROCODE_SIZE_def)
  have r2: "recordMicroStep 2 s2 = Ok s3"
    by (simp add: recordMicroStep_def setMicroCode_def s1_def s2_def s3_def t MICROCODE_SIZE_def)
  have "microCode (project s2) ! 20 = 1" "microCode (project s3) ! 20 = 1"
    "microCode (project s3) ! 21 = 2"
    "recordMicroCodeAddress s2 = Some 21" "recordMicroCodeAddress s3 = Some 22"
    using len by (simp_all add: s1_def s2_def s3_def t)
  moreover have "isRecording s1" "recordMicroCodeAddress s1 = Some 20"
    "getInstructionName 2 (project s1) = Some (JStr ''LOOP'')"
    by (simp_all add: s1_def t getInstructionName_def map_of_setProperty)
  ultimately show "isRecording (toggleRecording (Some 20) ''LOOP'' s) \<and>
     recordMicroCodeAddress (toggleRecording (Some 20) ''LOOP'' s) = Some 20 \<and>
     getInstructionName 2 (project (toggleRecording (Some 20) ''LOOP'' s)) = Some (JStr ''LOOP'') \<and>
     (\<exists>s2 s3. recordMicroStep 1 (toggleRecording (Some 20) ''LOOP'' s) = Ok s2 \<and>
              recordMicroCodeAddress s2 = Some 21 \<and>
              microCode (project s2) ! 20 = 1 \<and>
              recordMicroStep 2 s2 = Ok s3 \<and>
              recordMicroCodeAddress s3 = Some 22 \<and>
              microCode (project s3) ! 20 = 1 \<and> microCode (project s3) ! 21 = 2)"
    using r1 r2 unfolding s1_def [symmetric] by blast
qed

theorem recording_LOOP_at_20_witness:
  "isRecording (toggleRecording (Some 20) ''LOOP'' initialMachine) \<and>
   recordMicroCodeAddress (toggleRecording (Some 20) ''LOOP'' initialMachine) = Some 20 \<and>
   getInstructionName 2 (project (toggleRecording (Some 20) ''LOOP'' initialMachine))
     = Some (JStr ''LOOP'') \<and>
   (\<exists>s2 s3. recordMicroStep 1 (toggleRecording (Some 20) ''LOOP'' initialMachine) = Ok s2 \<and>
            recordMicroCodeAddress s2 = Some 21 \<and>
            microCode (project s2) ! 20 = 1 \<and>
            recordMicroStep 2 s2 = Ok s3 \<and>
            recordMicroCodeAddress s3 = Some 22 \<and>
            microCode (project s3) ! 20 = 1 \<and> microCode (project s3) ! 21 = 2)"
  using recording_LOOP_at_20 [of initialMachine]
  by (simp add: initialMachine_fields sized_init)

section \<open>Snapshot import\<close>

lemma list_all_replicate: "list_all P (replicate n x) = (n = 0 \<or> P x)"
  by (induction n) auto

text \<open>
  C1. The import is not all-or-nothing. Importing \<open>badSnapshot\<close> into the default project
  is rejected for its microcode, after its memory has been assigned: the project is left
  with memory word 0 equal to 5, where it was 0, and with the microcode and the names it had.
\<close>

theorem import_applies_ram_before_rejecting:
  "fromJSON badSnapshot init = Err InvalidMicrocodeValues (init\<lparr>ram := 5 # replicate 999 0\<rparr>) \<and>
   importProject (Some badSnapshot) init = init\<lparr>ram := 5 # replicate 999 0\<rparr> \<and>
   ram init = replicate 1000 0"
proof -
  have 1: "loadRam badSnapshot init = Ok (init\<lparr>ram := 5 # replicate 999 0\<rparr>)"
    by (simp add: loadRam_def badSnapshot_def padZeros_eq list_all_replicate const_defs)
  have 2: "loadMicroCode badSnapshot (init\<lparr>ram := 5 # replicate 999 0\<rparr>) =
             Err InvalidMicrocodeValues (init\<lparr>ram := 5 # replicate 999 0\<rparr>)"
    by (simp add: loadMicroCode_def badSnapshot_def padZeros_eq const_defs)
  have "fromJSON badSnapshot init = Err InvalidMicrocodeValues (init\<lparr>ram := 5 # replicate 999 0\<rparr>)"
    by (simp add: fromJSON_def 1 2)
  then show ?thesis
    by (simp add: importProject_def ram_init)
qed


end
